theory Spec2Isabelle
  imports Main
begin

section \<open>Action vocabulary of the Karel trace decoder\<close>

text \<open>
  The module-level dictionaries \<open>action_to_id\<close> and \<open>id_to_action\<close> of
  \<open>karel_trace.py\<close>, as association lists read through \<open>map_of\<close>.
  A missing key is \<open>None\<close> (Python raises KeyError there).
\<close>

definition action_to_id_items :: "(string \<times> nat) list" where
  "action_to_id_items =
     [(''<s>'', 0), (''</s>'', 1), (''move'', 2), (''turnLeft'', 3),
      (''turnRight'', 4), (''putMarker'', 5), (''pickMarker'', 6)]"

definition id_to_action_items :: "(nat \<times> string) list" where
  "id_to_action_items =
     [(0, ''<s>''), (1, ''</s>''), (2, ''move''), (3, ''turnLeft''),
      (4, ''turnRight''), (5, ''putMarker''), (6, ''pickMarker'')]"

definition action_to_id :: "string \<Rightarrow> nat option" where
  "action_to_id = map_of action_to_id_items"

definition id_to_action :: "nat \<Rightarrow> string option" where
  "id_to_action = map_of id_to_action_items"

text \<open>
  The test \<open>action_id < 2\<close> of \<open>TraceDecoder.decode_token\<close>, on the entries of a
  token tensor (signed integers).
\<close>

definition is_marker_id :: "int \<Rightarrow> bool" where
  "is_marker_id action_id = (action_id < 2)"


section \<open>Errors and configuration parsing\<close>

text \<open>
  The Python exceptions the module can raise, as values. A failing \<open>assert\<close> is
  \<open>AssertionError\<close>; \<open>raise ValueError(...)\<close> is \<open>ValueError\<close>; an operation on
  \<open>None\<close> is \<open>TypeError\<close>; an index out of range is \<open>IndexError\<close>; a missing
  dictionary key is \<open>KeyError\<close>; reading an attribute that was never set is
  \<open>AttributeError\<close>; a shape the tensor library refuses is \<open>RuntimeError\<close>.
\<close>

datatype error =
  AssertionError | ValueError | TypeError | IndexError | KeyError | AttributeError
  | RuntimeError

text \<open>Python's \<open>str.split(sep)\<close> for a one-character separator.\<close>

fun split_on :: "char \<Rightarrow> string \<Rightarrow> string list" where
  "split_on sep [] = [[]]"
| "split_on sep (ch # cs) =
     (if ch = sep then [] # split_on sep cs
      else (case split_on sep cs of
              [] \<Rightarrow> [[ch]]
            | w # ws \<Rightarrow> (ch # w) # ws))"

text \<open>
  Modelled from the spec: \<open>karel_modules.set_pop\<close> is not among the sources. Its call
  sites use it as "remove the value from the collection if it is there and say whether
  it was": the collection is mutated, so the model returns it besides the flag.
\<close>

definition set_pop :: "string list \<Rightarrow> string \<Rightarrow> bool \<times> string list" where
  "set_pop s v = (if v \<in> set s then (True, remove1 v s) else (False, s))"

subsection \<open>\<open>LatePoolingCodeDecoder.__init__\<close>\<close>

record decoder_args =
  num_placeholders :: int
  karel_trace_usage :: string
  karel_io_enc :: string

record LatePoolingCodeDecoder =
  use_trace_memory :: bool
  use_trace_state :: bool
  use_io_embed :: bool
  decoder_input_size :: nat
  out_in_features :: nat

text \<open>
  The flags computed from \<open>karel_trace_usage\<close> before the assertions: the two pops,
  the override by \<open>none\<close>, and what is left of the list.
\<close>

definition parse_trace_usage :: "string \<Rightarrow> bool \<times> bool \<times> string list" where
  "parse_trace_usage usage =
     (let trace_usage = split_on CHR '','' usage;
          (mem, u1) = set_pop trace_usage ''memory'';
          (st, u2) = set_pop u1 ''state'';
          (none, u3) = set_pop u2 ''none''
      in (if none then False else mem, if none then False else st, u3))"

definition LatePoolingCodeDecoder_init :: "decoder_args \<Rightarrow> error + LatePoolingCodeDecoder" where
  "LatePoolingCodeDecoder_init args =
     (if num_placeholders args \<noteq> 0 then Inl AssertionError
      else (case parse_trace_usage (karel_trace_usage args) of
        (mem, st, rest) \<Rightarrow>
          if rest \<noteq> [] then Inl AssertionError
          else if st then Inl AssertionError
          else
            (let io = (karel_io_enc args \<noteq> ''none'')
             in Inr \<lparr> use_trace_memory = mem, use_trace_state = st, use_io_embed = io,
                      decoder_input_size =
                        256 + (if io then 512 else 0) + (if mem then 512 else 0),
                      out_in_features = 256 + (if mem then 512 else 0) \<rparr>)))"

subsection \<open>\<open>IndividualTraceEncoder.__init__\<close>\<close>

record encoder_args =
  karel_trace_grid_enc :: string
  karel_trace_cond_enc :: string
  karel_trace_enc :: string
  karel_trace_action_enc :: string

text \<open>
  What the constructor leaves behind: for each input source whether it is a real module
  (\<open>True\<close>) or \<open>karel_common.none_fn\<close> (\<open>False\<close>), the interleave flag and the
  input width handed to the LSTM.
\<close>

record IndividualTraceEncoder =
  has_grid_encoder :: bool
  has_cond_embed :: bool
  has_action_embed :: bool
  interleave :: bool
  enc_input_size :: nat

definition grid_enc_choice :: "string \<Rightarrow> error + bool" where
  "grid_enc_choice g =
     (if g = ''lgrl'' then Inr True
      else if g = ''presnet'' then Inr True
      else if g = ''none'' then Inr False
      else Inl ValueError)"

definition cond_enc_choice :: "string \<Rightarrow> error + bool" where
  "cond_enc_choice cnd =
     (if cnd = ''concat'' then Inr True
      else if cnd = ''sum'' then Inr True
      else if cnd = ''none'' then Inr False
      else Inl ValueError)"

text \<open>
  The action branch has no \<open>else\<close>: for any other string the attribute
  \<open>action_embed\<close> stays unset (\<open>None\<close> here) and the first read of it raises.
\<close>

definition action_enc_choice :: "string \<Rightarrow> bool option" where
  "action_enc_choice a =
     (if a = ''emb'' then Some True
      else if a = ''none'' then Some False
      else None)"

definition IndividualTraceEncoder_init :: "encoder_args \<Rightarrow> error + IndividualTraceEncoder" where
  "IndividualTraceEncoder_init args =
     (case grid_enc_choice (karel_trace_grid_enc args) of
        Inl e \<Rightarrow> Inl e
      | Inr grid \<Rightarrow>
     (case cond_enc_choice (karel_trace_cond_enc args) of
        Inl e \<Rightarrow> Inl e
      | Inr cnd \<Rightarrow>
     (let trace_enc_options = remdups (tl (split_on CHR '':'' (karel_trace_enc args)));
          (inter, o1) = set_pop trace_enc_options ''interleave'';
          (concat_opt, o2) = set_pop o1 ''concat''
      in if inter = concat_opt then Inl AssertionError
         else if o2 \<noteq> [] then Inl AssertionError
         else
           (let il = (inter \<and> \<not> concat_opt)
            in (case action_enc_choice (karel_trace_action_enc args) of
                  None \<Rightarrow> Inl AttributeError
                | Some act \<Rightarrow>
                    if il then
                      (if \<not> act then Inl AssertionError
                       else if \<not> grid \<and> \<not> cnd then Inl AssertionError
                       else Inr \<lparr> has_grid_encoder = grid, has_cond_embed = cnd,
                                  has_action_embed = act, interleave = il,
                                  enc_input_size = 512 \<rparr>)
                    else
                      (let sz = (if act then 512 else 0) + (if grid then 256 else 0)
                                + (if cnd then 256 else 0)
                       in if sz = 0 then Inl AssertionError
                          else Inr \<lparr> has_grid_encoder = grid, has_cond_embed = cnd,
                                     has_action_embed = act, interleave = il,
                                     enc_input_size = sz \<rparr>))))))"

section \<open>Tensors as nested row lists\<close>

text \<open>
  A tensor is the list of its rows along the leading dimension; a row of a
  \<open>batch x pairs x hidden\<close> tensor is the list of its per-pair vectors, and a vector is
  the list of its entries. Only rectangular nestings are tensors; the functions are
  total on ragged ones all the same.
\<close>

type_synonym 'a vec = "'a list"

text \<open>
  \<open>unflatten ns xs\<close> cuts \<open>xs\<close> into consecutive groups of the sizes \<open>ns\<close>: the
  row-major regrouping behind \<open>view\<close>, \<open>view_as\<close> and \<open>reshape\<close>.
\<close>

fun unflatten :: "nat list \<Rightarrow> 'x list \<Rightarrow> 'x list list" where
  "unflatten [] xs = []"
| "unflatten (n # ns) xs = take n xs # unflatten ns (drop n xs)"

text \<open>
  \<open>t.view(-1, p, ...)\<close> on a tensor of \<open>length xs\<close> rows: the free dimension cannot be
  inferred when \<open>p\<close> is 0 or does not divide the row count, and the library raises.
\<close>

definition view_groups :: "nat \<Rightarrow> 'x list \<Rightarrow> error + 'x list list" where
  "view_groups p xs =
     (if p = 0 \<or> length xs mod p \<noteq> 0 then Inl RuntimeError
      else Inr (unflatten (replicate (length xs div p) p) xs))"

text \<open>
  \<open>t.view(batch_size, -1, ...)\<close> (and numpy's \<open>reshape\<close> with the same arguments): the
  example-major \<open>[B, W]\<close> view of \<open>B * W\<close> rows.
\<close>

definition view_beams :: "nat \<Rightarrow> 'x list \<Rightarrow> error + 'x list list" where
  "view_beams batch_size xs =
     (if batch_size = 0 \<or> length xs mod batch_size \<noteq> 0 then Inl RuntimeError
      else Inr (unflatten (replicate batch_size (length xs div batch_size)) xs))"

text \<open>Indexing with a Python integer: negative indices count from the end.\<close>

definition py_index :: "'x list \<Rightarrow> int \<Rightarrow> error + 'x" where
  "py_index xs i =
     (let n = int (length xs); j = (if i < 0 then i + n else i)
      in if 0 \<le> j \<and> j < n then Inr (xs ! nat j) else Inl IndexError)"

definition index_pair :: "'x list list \<Rightarrow> int \<times> int \<Rightarrow> error + 'x" where
  "index_pair v p =
     (case py_index v (fst p) of
        Inl e \<Rightarrow> Inl e
      | Inr row \<Rightarrow> py_index row (snd p))"

text \<open>Running a fallible function over a list; the first failure is the result.\<close>

fun traverse :: "('x \<Rightarrow> error + 'y) \<Rightarrow> 'x list \<Rightarrow> error + 'y list" where
  "traverse f [] = Inr []"
| "traverse f (x # xs) =
     (case f x of
        Inl e \<Rightarrow> Inl e
      | Inr y \<Rightarrow> (case traverse f xs of Inl e \<Rightarrow> Inl e | Inr ys \<Rightarrow> Inr (y # ys)))"

text \<open>
  Advanced indexing of the \<open>[B, W]\<close> view by a pair of index arrays. \<open>indices\<close> is the
  \<open>2 x K\<close> index tensor, given as the list of its \<open>K\<close> columns
  \<open>(indices[0][j], indices[1][j])\<close>; the result has one row per column, in column
  order.
\<close>

definition select_rows :: "nat \<Rightarrow> (int \<times> int) list \<Rightarrow> 'x list \<Rightarrow> error + 'x list" where
  "select_rows batch_size indices xs =
     (case view_beams batch_size xs of
        Inl e \<Rightarrow> Inl e
      | Inr v \<Rightarrow> traverse (index_pair v) indices)"

text \<open>
  The index sets that name existing beams of the \<open>[B, W]\<close> view: every column is
  an example index below \<open>B\<close> and a beam index below \<open>W\<close>.
\<close>

definition valid_indices :: "nat \<Rightarrow> nat \<Rightarrow> (int \<times> int) list \<Rightarrow> bool" where
  "valid_indices B W idx = (\<forall>(a, b) \<in> set idx. 0 \<le> a \<and> a < int B \<and> 0 \<le> b \<and> b < int W)"

text \<open>
  The recurrent states of this module have two layers (\<open>num_layers=2\<close>), and
  \<open>v.view(2, batch_size, -1, ...)\<close> relies on it. For another layer count the view
  would regroup rows across layers; the model does not follow that and reports an error.
\<close>

definition select_layers ::
  "nat \<Rightarrow> (int \<times> int) list \<Rightarrow> 'x list list \<Rightarrow> error + 'x list list" where
  "select_layers batch_size indices v =
     (if length v \<noteq> 2 then Inl RuntimeError
      else traverse (select_rows batch_size indices) v)"

section \<open>\<open>LatePoolingCodeDecoder.State\<close>\<close>

text \<open>
  \<open>st_context\<close> is \<open>batch x pairs x hidden\<close> or \<open>None\<close>; \<open>st_h\<close> and \<open>st_c\<close> are
  \<open>2 x batch x pairs x hidden\<close>, the list of the layers. The type \<open>'r\<close> is a row of
  the active batch.
\<close>

record 'r State =
  pairs_per_example :: nat
  st_context :: "'r list option"
  st_h :: "'r list list"
  st_c :: "'r list list"

text \<open>
  \<open>select_for_beams\<close>. The context is indexed with the bare \<open>2 x K\<close> array
  (\<open>[indices.data.numpy()]\<close>), the recurrent state with \<open>tuple(...)\<close> of it. The
  tensor library of this module (the one with \<open>torch.autograd.Variable\<close>) unpacks a
  non-tuple sequence of fewer than 32 items whose items are sequences like a tuple, and
  the two rows of the index array are such items, so both spellings select by
  (example, beam) pairs.
\<close>

definition State_select_for_beams ::
  "nat \<Rightarrow> (int \<times> int) list \<Rightarrow> 'r State \<Rightarrow> error + 'r State" where
  "State_select_for_beams batch_size indices s =
     (case (case st_context s of
              None \<Rightarrow> Inr None
            | Some ctx \<Rightarrow> (case select_rows batch_size indices ctx of
                            Inl e \<Rightarrow> Inl e | Inr r \<Rightarrow> Inr (Some r))) of
        Inl e \<Rightarrow> Inl e
      | Inr ctx' \<Rightarrow>
     (case select_layers batch_size indices (st_h s) of
        Inl e \<Rightarrow> Inl e
      | Inr h' \<Rightarrow>
     (case select_layers batch_size indices (st_c s) of
        Inl e \<Rightarrow> Inl e
      | Inr c' \<Rightarrow>
          Inr \<lparr> pairs_per_example = pairs_per_example s, st_context = ctx',
                st_h = h', st_c = c' \<rparr>)))"

text \<open>
  \<open>truncate\<close>: \<open>self.context[:k]\<close> is evaluated first and has no guard, so a
  \<open>None\<close> context raises TypeError. \<open>k\<close> is a batch size, a natural number.
\<close>

definition State_truncate :: "nat \<Rightarrow> 'r State \<Rightarrow> error + 'r State" where
  "State_truncate k s =
     (case st_context s of
        None \<Rightarrow> Inl TypeError
      | Some ctx \<Rightarrow>
          Inr \<lparr> pairs_per_example = pairs_per_example s, st_context = Some (take k ctx),
                st_h = map (take k) (st_h s), st_c = map (take k) (st_c s) \<rparr>)"

text \<open>
  Modelled from the spec: \<open>karel_modules.lstm_init\<close> is not among the sources. The spec
  gives the recurrent state the shape \<open>[layers, active_batch, pairs_per_example, hidden]\<close>;
  the initial state is taken to be zero.
\<close>

definition lstm_init :: "nat \<Rightarrow> nat \<Rightarrow> nat \<Rightarrow> nat \<Rightarrow> ('a::zero) vec list list list" where
  "lstm_init num_layers hidden batch_size pairs =
     replicate num_layers (replicate batch_size (replicate pairs (replicate hidden 0)))"

definition init_state ::
  "LatePoolingCodeDecoder \<Rightarrow> nat \<Rightarrow> nat \<Rightarrow> ('a::zero) vec list State" where
  "init_state d batch_size pairs =
     \<lparr> pairs_per_example = pairs,
       st_context = (if use_trace_memory d
                     then Some (replicate batch_size (replicate pairs (replicate 512 0)))
                     else None),
       st_h = lstm_init 2 256 batch_size pairs,
       st_c = lstm_init 2 256 batch_size pairs \<rparr>"

section \<open>The decoding step of \<open>LatePoolingCodeDecoder\<close>\<close>

text \<open>
  \<open>mem_io\<close> is \<open>batch x pairs x 512\<close> or \<open>None\<close>. \<open>mem_trace\<close> is the masked trace
  memory or \<open>None\<close>: per example and pair one value of type \<open>'m\<close>, the padded trace
  with its attention mask.
\<close>

record ('a, 'm) Memory =
  mem_io :: "'a vec list list option"
  mem_trace :: "'m list list option"

text \<open>
  The learned collaborators, which the spec leaves opaque, as parameters: the token
  embedding, the two-layer recurrent transform (one batch row at a time: input, the
  row's \<open>h\<close> and \<open>c\<close> of both layers), the attention readout of one query over one
  trace, and the output projection.
\<close>

record ('t, 'a, 'm, 'l) modules =
  code_embed :: "'t \<Rightarrow> 'a vec"
  decoder_cell ::
    "'a vec \<Rightarrow> 'a vec \<times> 'a vec \<Rightarrow> 'a vec \<times> 'a vec
       \<Rightarrow> 'a vec \<times> ('a vec \<times> 'a vec) \<times> ('a vec \<times> 'a vec)"
  trace_attention :: "'a vec \<Rightarrow> 'm \<Rightarrow> 'a vec"
  out_linear :: "'a vec \<Rightarrow> 'l"

text \<open>
  Modelled from the spec: \<open>karel_modules.maybe_concat\<close> is not among the sources; it
  concatenates the inputs that are not \<open>None\<close> along the given dimension.
  Concatenation along the last dimension of \<open>batch x pairs x hidden\<close> tensors needs
  equal leading dimensions.
\<close>

definition cat_dim2 :: "'a vec list list \<Rightarrow> 'a vec list list \<Rightarrow> error + 'a vec list list" where
  "cat_dim2 a b =
     (if map length a = map length b then Inr (map2 (map2 (@)) a b) else Inl RuntimeError)"

definition maybe_concat2 ::
  "'a vec list list \<Rightarrow> 'a vec list list option \<Rightarrow> error + 'a vec list list" where
  "maybe_concat2 a ob = (case ob of None \<Rightarrow> Inr a | Some b \<Rightarrow> cat_dim2 a b)"

text \<open>
  \<open>nn.LSTM\<close> with two layers on a length-one sequence: every batch row is transformed
  on its own; the hidden state must have two layers and one row per input row.
\<close>

definition lstm_forward ::
  "('a vec \<Rightarrow> 'a vec \<times> 'a vec \<Rightarrow> 'a vec \<times> 'a vec
       \<Rightarrow> 'a vec \<times> ('a vec \<times> 'a vec) \<times> ('a vec \<times> 'a vec))
   \<Rightarrow> 'a vec list \<Rightarrow> 'a vec list list \<Rightarrow> 'a vec list list
   \<Rightarrow> error + ('a vec list \<times> 'a vec list list \<times> 'a vec list list)" where
  "lstm_forward cell xs hs cs =
     (case (hs, cs) of
        ([h0, h1], [c0, c1]) \<Rightarrow>
          if length h0 = length xs \<and> length h1 = length xs
             \<and> length c0 = length xs \<and> length c1 = length xs
          then
            (let rs = map2 (\<lambda>x (hh, cc). cell x hh cc) xs (zip (zip h0 h1) (zip c0 c1))
             in Inr (map fst rs,
                     [map (\<lambda>r. fst (fst (snd r))) rs, map (\<lambda>r. snd (fst (snd r))) rs],
                     [map (\<lambda>r. fst (snd (snd r))) rs, map (\<lambda>r. snd (snd (snd r))) rs]))
          else Inl RuntimeError
      | _ \<Rightarrow> Inl RuntimeError)"

text \<open>
  \<open>.max(dim=1)\<close> over the pairs of one beam: the elementwise maximum of its vectors.
  \<open>view_groups\<close> never produces an empty group, so the first equation is not reached.
\<close>

fun max_over_pairs :: "('a::linorder) vec list \<Rightarrow> 'a vec" where
  "max_over_pairs [] = []"
| "max_over_pairs [v] = v"
| "max_over_pairs (v # w # ws) = map2 max v (max_over_pairs (w # ws))"

text \<open>
  The attention over the trace memory: one query per flattened row, one trace per
  flattened row. \<open>trace_attention\<close> exists only when the decoder was built with trace
  memory.
\<close>

definition attend_trace ::
  "LatePoolingCodeDecoder \<Rightarrow> ('a vec \<Rightarrow> 'm \<Rightarrow> 'a vec) \<Rightarrow> 'a vec list
   \<Rightarrow> 'm list list option \<Rightarrow> error + 'a vec list option" where
  "attend_trace d att dec_output tr =
     (case tr of
        None \<Rightarrow> Inr None
      | Some tm \<Rightarrow>
          if \<not> use_trace_memory d then Inl AttributeError
          else if length (concat tm) \<noteq> length dec_output then Inl RuntimeError
          else Inr (Some (map2 att dec_output (concat tm))))"

text \<open>
  The pooling of \<open>compute_next_token_logits\<close>: \<open>maybe_concat((new_context,
  dec_output), dim=1)\<close>, then \<open>.view(-1, pairs_per_example, D).max(dim=1)\<close>.
\<close>

definition emb_for_logits :: "'a vec list option \<Rightarrow> 'a vec list \<Rightarrow> 'a vec list" where
  "emb_for_logits new_context dec_output =
     (case new_context of None \<Rightarrow> dec_output | Some nc \<Rightarrow> map2 (@) nc dec_output)"

definition pool_pairs ::
  "nat \<Rightarrow> ('a::linorder) vec list option \<Rightarrow> 'a vec list \<Rightarrow> error + 'a vec list" where
  "pool_pairs pairs new_context dec_output =
     (case view_groups pairs (emb_for_logits new_context dec_output) of
        Inl e \<Rightarrow> Inl e
      | Inr groups \<Rightarrow> Inr (map max_over_pairs groups))"

definition compute_next_token_logits ::
  "LatePoolingCodeDecoder \<Rightarrow> ('t, 'a::linorder, 'm, 'l) modules \<Rightarrow> 'a vec list State
   \<Rightarrow> ('a, 'm) Memory \<Rightarrow> 'a vec list list \<Rightarrow> error + ('a vec list State \<times> 'l list)" where
  "compute_next_token_logits d M state memory last_token_emb =
     (let pairs = pairs_per_example state in
      case maybe_concat2 last_token_emb (mem_io memory) of
        Inl e \<Rightarrow> Inl e
      | Inr x1 \<Rightarrow>
     (case maybe_concat2 x1 (st_context state) of
        Inl e \<Rightarrow> Inl e
      | Inr dec_input3 \<Rightarrow>
     (case lstm_forward (decoder_cell M) (concat dec_input3)
             (map concat (st_h state)) (map concat (st_c state)) of
        Inl e \<Rightarrow> Inl e
      | Inr (dec_output, h_flat, c_flat) \<Rightarrow>
     (let new_h = map2 (\<lambda>old flat. unflatten (map length old) flat) (st_h state) h_flat;
          new_c = map2 (\<lambda>old flat. unflatten (map length old) flat) (st_c state) c_flat
      in case attend_trace d (trace_attention M) dec_output (mem_trace memory) of
        Inl e \<Rightarrow> Inl e
      | Inr new_context \<Rightarrow>
     (case pool_pairs pairs new_context dec_output of
        Inl e \<Rightarrow> Inl e
      | Inr pooled \<Rightarrow>
     (case (case new_context of
              None \<Rightarrow> Inr None
            | Some nc \<Rightarrow> (case view_groups pairs nc of
                            Inl e \<Rightarrow> Inl e | Inr g \<Rightarrow> Inr (Some g))) of
        Inl e \<Rightarrow> Inl e
      | Inr ctx' \<Rightarrow>
          Inr (\<lparr> pairs_per_example = pairs_per_example state, st_context = ctx',
                 st_h = new_h, st_c = new_c \<rparr>,
               map (out_linear M) pooled)))))))"

text \<open>\<open>decode_token\<close>: embed the tokens, repeat each embedding for every pair, step.\<close>

definition decode_token ::
  "LatePoolingCodeDecoder \<Rightarrow> ('t, 'a::linorder, 'm, 'l) modules \<Rightarrow> 't list
   \<Rightarrow> 'a vec list State \<Rightarrow> ('a, 'm) Memory \<Rightarrow> error + ('a vec list State \<times> 'l list)" where
  "decode_token d M token state memory =
     compute_next_token_logits d M state memory
       (map (\<lambda>t. replicate (pairs_per_example state) (code_embed M t)) token)"

section \<open>The states of a decoding run\<close>

text \<open>
  \<open>rows_ok n p t\<close>: the tensor \<open>t\<close> has \<open>n\<close> rows in its active-batch dimension
  and \<open>p\<close> pairs in each. \<open>state_ok n s\<close>: every field of \<open>s\<close> that is not
  \<open>None\<close> has active-batch dimension \<open>n\<close> (and \<open>pairs_per_example s\<close> pairs per
  row); the recurrent state has its two layers.
\<close>

definition rows_ok :: "nat \<Rightarrow> nat \<Rightarrow> 'x list list \<Rightarrow> bool" where
  "rows_ok n p t = (length t = n \<and> (\<forall>r \<in> set t. length r = p))"

definition state_ok :: "nat \<Rightarrow> 'x list State \<Rightarrow> bool" where
  "state_ok n s =
     ((\<forall>ctx. st_context s = Some ctx \<longrightarrow> rows_ok n (pairs_per_example s) ctx)
      \<and> length (st_h s) = 2 \<and> (\<forall>l \<in> set (st_h s). rows_ok n (pairs_per_example s) l)
      \<and> length (st_c s) = 2 \<and> (\<forall>l \<in> set (st_c s). rows_ok n (pairs_per_example s) l))"

text \<open>
  The states a decoder \<open>d\<close> with \<open>p\<close> pairs per example produces, each with the
  batch size of the decoding at that point: \<open>init_state\<close> for a batch, \<open>truncate\<close>
  to \<open>k\<close> rows, \<open>select_for_beams\<close> for \<open>K\<close> surviving beams, a step of
  \<open>decode_token\<close> on a batch of tokens, and a step of \<open>forward\<close> on a slice of the
  packed input (each embedding repeated for every pair).
\<close>

inductive reachable ::
  "LatePoolingCodeDecoder \<Rightarrow> ('t, 'a::{zero,linorder}, 'm, 'l) modules \<Rightarrow> nat
   \<Rightarrow> nat \<Rightarrow> 'a vec list State \<Rightarrow> bool"
  for d :: LatePoolingCodeDecoder and M :: "('t, 'a::{zero,linorder}, 'm, 'l) modules"
    and p :: nat where
  reach_init: "reachable d M p batch_size (init_state d batch_size p)"
| reach_truncate:
    "reachable d M p n s \<Longrightarrow> State_truncate k s = Inr s' \<Longrightarrow> reachable d M p (min k n) s'"
| reach_select:
    "reachable d M p n s \<Longrightarrow> State_select_for_beams batch_size indices s = Inr s'
     \<Longrightarrow> reachable d M p (length indices) s'"
| reach_decode_token:
    "reachable d M p n s \<Longrightarrow> decode_token d M token s memory = Inr (s', logits)
     \<Longrightarrow> reachable d M p (length token) s'"
| reach_forward_step:
    "reachable d M p n s
     \<Longrightarrow> compute_next_token_logits d M s memory
           (map (replicate (pairs_per_example s)) dec_data_slice) = Inr (s', logits)
     \<Longrightarrow> reachable d M p (length dec_data_slice) s'"

section \<open>Teacher-forced decoding: \<open>LatePoolingCodeDecoder.forward\<close>\<close>

text \<open>
  A \<open>PackedSequencePlus\<close>, as far as \<open>forward\<close> reads it: the packed data (all
  sequences' first items, then all second items, ...), the number of active sequences
  at every timestep, and the order of the examples in the packed batch.
\<close>

record 't PackedSequencePlus =
  ps_data :: "'t list"
  ps_batch_sizes :: "nat list"
  orig_to_sort :: "int list"

text \<open>
  \<open>prepare_memory\<close>. The trace memory arrives padded, one trace of type \<open>'m\<close> per
  example and pair, and is viewed as \<open>batch_size x pairs_per_example\<close>.
\<close>

definition prepare_memory ::
  "LatePoolingCodeDecoder \<Rightarrow> nat \<Rightarrow> nat \<Rightarrow> 'a vec list list option \<Rightarrow> 'm list option
   \<Rightarrow> error + ('a, 'm) Memory" where
  "prepare_memory d batch_size pairs io_embed trace_memory =
     (case (if use_trace_memory d then trace_memory else None) of
        None \<Rightarrow> Inr \<lparr> mem_io = io_embed, mem_trace = None \<rparr>
      | Some tm \<Rightarrow>
          if length tm \<noteq> batch_size * pairs then Inl RuntimeError
          else Inr \<lparr> mem_io = io_embed,
                     mem_trace = Some (unflatten (replicate batch_size pairs) tm) \<rparr>)"

text \<open>\<open>t[list(orig_to_sort)]\<close> on a tensor that may be \<open>None\<close>.\<close>

definition index_rows :: "'x list option \<Rightarrow> int list \<Rightarrow> error + 'x list option" where
  "index_rows ot idx =
     (case ot of
        None \<Rightarrow> Inr None
      | Some t \<Rightarrow> (case traverse (py_index t) idx of Inl e \<Rightarrow> Inl e | Inr r \<Rightarrow> Inr (Some r)))"

text \<open>
  The loop over \<open>batch_sizes\<close>. \<open>io\<close> and \<open>trace\<close> are the full (reordered)
  memories, which the slices are cut from; \<open>memory\<close> holds the current slices. The
  result is the list of the per-timestep logits.
\<close>

fun forward_loop ::
  "LatePoolingCodeDecoder \<Rightarrow> ('t, 'a::{zero,linorder}, 'm, 'l) modules \<Rightarrow> nat
   \<Rightarrow> 'a vec list list option \<Rightarrow> 'm list list option \<Rightarrow> 'a vec list
   \<Rightarrow> nat list \<Rightarrow> nat \<Rightarrow> nat \<Rightarrow> 'a vec list State \<Rightarrow> ('a, 'm) Memory
   \<Rightarrow> error + 'l list list" where
  "forward_loop d M pairs io trace data [] offset last_bs state memory = Inr []"
| "forward_loop d M pairs io trace data (bs # rest) offset last_bs state memory =
     (let dec_data_slice = map (replicate pairs) (take bs (drop offset data))
      in case (if bs < last_bs
               then (let memory' = \<lparr> mem_io = map_option (take bs) io,
                                      mem_trace = map_option (take bs) trace \<rparr>
                     in case State_truncate bs state of
                          Inl e \<Rightarrow> Inl e
                        | Inr state' \<Rightarrow> Inr (state', memory'))
               else Inr (state, memory)) of
           Inl e \<Rightarrow> Inl e
         | Inr (state1, memory1) \<Rightarrow>
        (case compute_next_token_logits d M state1 memory1 dec_data_slice of
           Inl e \<Rightarrow> Inl e
         | Inr (state2, logits_for_t) \<Rightarrow>
        (case forward_loop d M pairs io trace data rest (offset + bs) bs state2 memory1 of
           Inl e \<Rightarrow> Inl e
         | Inr ls \<Rightarrow> Inr (logits_for_t # ls))))"

text \<open>
  \<open>forward\<close>: \<open>torch.cat\<close> refuses an empty list of tensors; the labels are the
  packed data of \<open>output_code\<close>.
\<close>

definition forward ::
  "LatePoolingCodeDecoder \<Rightarrow> ('t, 'a::{zero,linorder}, 'm, 'l) modules \<Rightarrow> nat \<Rightarrow> nat
   \<Rightarrow> 'a vec list list option \<Rightarrow> 'm list option
   \<Rightarrow> 't PackedSequencePlus \<Rightarrow> 'u PackedSequencePlus \<Rightarrow> error + ('l list \<times> 'u list)" where
  "forward d M batch_size pairs io_embed trace_memory input_code output_code =
     (let data = map (code_embed M) (ps_data input_code);
          state = init_state d batch_size pairs
      in case prepare_memory d batch_size pairs io_embed trace_memory of
           Inl e \<Rightarrow> Inl e
         | Inr memory \<Rightarrow>
        (case index_rows (mem_io memory) (orig_to_sort input_code) of
           Inl e \<Rightarrow> Inl e
         | Inr io \<Rightarrow>
        (case index_rows (mem_trace memory) (orig_to_sort input_code) of
           Inl e \<Rightarrow> Inl e
         | Inr trace \<Rightarrow>
        (case forward_loop d M pairs io trace data (ps_batch_sizes input_code) 0 0 state
                \<lparr> mem_io = io, mem_trace = trace \<rparr> of
           Inl e \<Rightarrow> Inl e
         | Inr logits \<Rightarrow>
             if logits = [] then Inl RuntimeError
             else Inr (concat logits, ps_data output_code)))))"

section \<open>Arrays as objects: the store\<close>

text \<open>
  Where a claim is about sharing, arrays are objects in a store and the states hold
  their addresses. An array is a tensor of rows (a grid field, a context) or the layers
  of a recurrent state. An address is a position in the store; nothing is ever freed.
  A view (\<open>view\<close>, \<open>reshape\<close>) shares its base; advanced indexing and \<open>copy\<close>
  allocate a new array.
\<close>

datatype ('g, 'v) array = Rows "'g list" | Layers "'v list list"

type_synonym ('g, 'v) store = "('g, 'v) array list"

definition alloc :: "('g, 'v) store \<Rightarrow> ('g, 'v) array \<Rightarrow> ('g, 'v) store \<times> nat" where
  "alloc H a = (H @ [a], length H)"

definition get_rows :: "('g, 'v) store \<Rightarrow> nat \<Rightarrow> 'g list option" where
  "get_rows H r =
     (if r < length H then (case H ! r of Rows xs \<Rightarrow> Some xs | Layers _ \<Rightarrow> None) else None)"

definition get_layers :: "('g, 'v) store \<Rightarrow> nat \<Rightarrow> 'v list list option" where
  "get_layers H r =
     (if r < length H then (case H ! r of Layers v \<Rightarrow> Some v | Rows _ \<Rightarrow> None) else None)"

section \<open>\<open>TraceDecoderState\<close>\<close>

text \<open>The three fields are references: a numpy array and two tensors.\<close>

record TraceDecoderState =
  td_field :: nat
  td_h :: nat
  td_c :: nat

text \<open>
  \<open>select_for_beams\<close>: the field is reshaped to \<open>[B, W, ...]\<close> and indexed with the
  tuple of the two index rows, the recurrent state likewise below its layer dimension;
  each result is a new array. (numpy reports a bad reshape as ValueError.)
\<close>

definition numpy_select_rows :: "nat \<Rightarrow> (int \<times> int) list \<Rightarrow> 'x list \<Rightarrow> error + 'x list" where
  "numpy_select_rows batch_size indices xs =
     (case select_rows batch_size indices xs of
        Inl RuntimeError \<Rightarrow> Inl ValueError
      | Inl e \<Rightarrow> Inl e
      | Inr r \<Rightarrow> Inr r)"

definition TraceDecoderState_select_for_beams ::
  "('g, 'v) store \<Rightarrow> nat \<Rightarrow> (int \<times> int) list \<Rightarrow> TraceDecoderState
   \<Rightarrow> error + (('g, 'v) store \<times> TraceDecoderState)" where
  "TraceDecoderState_select_for_beams H batch_size indices s =
     (case (get_rows H (td_field s), get_layers H (td_h s), get_layers H (td_c s)) of
        (Some f, Some hh, Some cc) \<Rightarrow>
          (case numpy_select_rows batch_size indices f of
             Inl e \<Rightarrow> Inl e
           | Inr f' \<Rightarrow>
          (case select_layers batch_size indices hh of
             Inl e \<Rightarrow> Inl e
           | Inr h' \<Rightarrow>
          (case select_layers batch_size indices cc of
             Inl e \<Rightarrow> Inl e
           | Inr c' \<Rightarrow>
               (let (H1, rf) = alloc H (Rows f');
                    (H2, rh) = alloc H1 (Layers h');
                    (H3, rc) = alloc H2 (Layers c')
                in Inr (H3, \<lparr> td_field = rf, td_h = rh, td_c = rc \<rparr>)))))
      | _ \<Rightarrow> Inl TypeError)"

section \<open>\<open>LatePoolingCodeDecoder.State\<close> with its tensors as objects\<close>

record State_ref =
  sr_pairs_per_example :: nat
  sr_context :: "nat option"
  sr_h :: nat
  sr_c :: nat

definition load_State :: "('v, 'v) store \<Rightarrow> State_ref \<Rightarrow> 'v State option" where
  "load_State H r =
     (case (get_layers H (sr_h r), get_layers H (sr_c r)) of
        (Some hh, Some cc) \<Rightarrow>
          (case sr_context r of
             None \<Rightarrow> Some \<lparr> pairs_per_example = sr_pairs_per_example r, st_context = None,
                             st_h = hh, st_c = cc \<rparr>
           | Some a \<Rightarrow>
               (case get_rows H a of
                  None \<Rightarrow> None
                | Some ctx \<Rightarrow> Some \<lparr> pairs_per_example = sr_pairs_per_example r,
                                     st_context = Some ctx, st_h = hh, st_c = cc \<rparr>))
      | _ \<Rightarrow> None)"

text \<open>The tensors of a newly computed state become new objects, the context first.\<close>

definition store_State :: "('v, 'v) store \<Rightarrow> 'v State \<Rightarrow> ('v, 'v) store \<times> State_ref" where
  "store_State H s =
     (let (H1, rctx) = (case st_context s of
                          None \<Rightarrow> (H, None)
                        | Some ctx \<Rightarrow> (let (H', a) = alloc H (Rows ctx) in (H', Some a)));
          (H2, rh) = alloc H1 (Layers (st_h s));
          (H3, rc) = alloc H2 (Layers (st_c s))
      in (H3, \<lparr> sr_pairs_per_example = pairs_per_example s, sr_context = rctx,
                sr_h = rh, sr_c = rc \<rparr>))"

text \<open>
  \<open>State.select_for_beams\<close> on objects: the views share the tensors of \<open>self\<close>, the
  indexing results are new tensors.
\<close>

definition State_select_for_beams_obj ::
  "('v, 'v) store \<Rightarrow> nat \<Rightarrow> (int \<times> int) list \<Rightarrow> State_ref
   \<Rightarrow> error + (('v, 'v) store \<times> State_ref)" where
  "State_select_for_beams_obj H batch_size indices r =
     (case load_State H r of
        None \<Rightarrow> Inl TypeError
      | Some s \<Rightarrow>
          (case State_select_for_beams batch_size indices s of
             Inl e \<Rightarrow> Inl e
           | Inr s' \<Rightarrow> Inr (store_State H s')))"

section \<open>\<open>TraceDecoder.decode_token\<close>\<close>

text \<open>
  The modules of a \<open>TraceDecoder\<close>: the grid encoder (\<open>None\<close> for
  \<open>karel_trace_grid_enc = 'none'\<close>), the action embedding (seven rows), the recurrent
  transform and the output projection, all opaque.
\<close>

record ('g, 'a, 'l) TraceDecoder =
  grid_encoder :: "('g \<Rightarrow> 'a vec) option"
  action_embed :: "nat \<Rightarrow> 'a vec"
  trace_decoder_cell ::
    "'a vec \<Rightarrow> 'a vec \<times> 'a vec \<Rightarrow> 'a vec \<times> 'a vec
       \<Rightarrow> 'a vec \<times> ('a vec \<times> 'a vec) \<times> ('a vec \<times> 'a vec)"
  trace_out :: "'a vec \<Rightarrow> 'l"

text \<open>
  The keys that reach \<open>id_to_action\<close>. The dictionary is keyed by Python integers.
  Iterating a tensor (\<open>token.data.cpu()\<close>) yields zero-dimensional tensors, and a
  tensor hashes by identity, so such a key equals no key of the dictionary and the
  lookup finds nothing, whatever value the tensor holds.
\<close>

datatype py_key = Py_int int | Scalar_tensor int

definition id_to_action_lookup :: "py_key \<Rightarrow> string option" where
  "id_to_action_lookup k =
     (case k of
        Py_int v \<Rightarrow> (if 0 \<le> v then id_to_action (nat v) else None)
      | Scalar_tensor v \<Rightarrow> None)"

text \<open>
  The loop \<open>for field, action_id in zip(fields, token.data.cpu())\<close>, from row \<open>i\<close>
  on; \<open>action_id\<close> is the value of the zero-dimensional tensor the iteration yields.
  The array at address \<open>r\<close> would be updated in place:
  \<open>kr.init_from_array(field)\<close> binds the runtime to the row (a view of the array) and
  the action method rewrites it. The runtime is not among the sources; \<open>sim name g\<close>
  is the row it leaves for the action called \<open>name\<close> on the row \<open>g\<close> (the spec's
  \<open>apply(grid, action)\<close>). \<open>zip\<close> stops at the shorter of the two. The comparison
  \<open>action_id < 2\<close> reads the tensor's value; the lookup \<open>id_to_action[action_id]\<close>
  is made with the tensor itself as key and raises KeyError when it finds nothing.
\<close>

fun advance_fields ::
  "(string \<Rightarrow> 'g \<Rightarrow> 'g) \<Rightarrow> ('g, 'v) store \<Rightarrow> nat \<Rightarrow> nat \<Rightarrow> int list
   \<Rightarrow> error + ('g, 'v) store" where
  "advance_fields sim H r i [] = Inr H"
| "advance_fields sim H r i (action_id # rest) =
     (case get_rows H r of
        None \<Rightarrow> Inl TypeError
      | Some rows \<Rightarrow>
          if length rows \<le> i then Inr H
          else if is_marker_id action_id then advance_fields sim H r (Suc i) rest
          else (case id_to_action_lookup (Scalar_tensor action_id) of
                  None \<Rightarrow> Inl KeyError
                | Some name \<Rightarrow>
                    advance_fields sim (H[r := Rows (rows[i := sim name (rows ! i)])])
                      r (Suc i) rest))"

text \<open>\<open>nn.Embedding(7, 256)\<close>: an index outside \<open>0..6\<close> is refused.\<close>

definition embed_action :: "(nat \<Rightarrow> 'a vec) \<Rightarrow> int \<Rightarrow> error + 'a vec" where
  "embed_action emb t = (if 0 \<le> t \<and> t < 7 then Inr (emb (nat t)) else Inl RuntimeError)"

text \<open>Concatenation along dimension 1 of \<open>batch x hidden\<close> tensors, skipping \<open>None\<close>.\<close>

definition maybe_concat1 :: "'a vec list \<Rightarrow> 'a vec list option \<Rightarrow> error + 'a vec list" where
  "maybe_concat1 a ob =
     (case ob of
        None \<Rightarrow> Inr a
      | Some b \<Rightarrow> if length a = length b then Inr (map2 (@) a b) else Inl RuntimeError)"

text \<open>
  The first part of \<open>decode_token\<close>: with a grid encoder the field array is copied,
  the copy is advanced and encoded; without one the state's own array is passed on and
  there is no grid embedding.
\<close>

definition advance_grids ::
  "(string \<Rightarrow> 'g \<Rightarrow> 'g) \<Rightarrow> ('g, 'a, 'l) TraceDecoder \<Rightarrow> ('g, 'v) store \<Rightarrow> int list
   \<Rightarrow> TraceDecoderState \<Rightarrow> error + (('g, 'v) store \<times> nat \<times> 'a vec list option)" where
  "advance_grids sim net H token state =
     (case grid_encoder net of
        Some enc \<Rightarrow>
          (case get_rows H (td_field state) of
             None \<Rightarrow> Inl TypeError
           | Some old \<Rightarrow>
               (let (H1, fields_ref) = alloc H (Rows old)
                in case advance_fields sim H1 fields_ref 0 token of
                     Inl e \<Rightarrow> Inl e
                   | Inr H2 \<Rightarrow>
                       (case get_rows H2 fields_ref of
                          None \<Rightarrow> Inl TypeError
                        | Some new \<Rightarrow> Inr (H2, fields_ref, Some (map enc new)))))
      | None \<Rightarrow> Inr (H, td_field state, None))"

definition TraceDecoder_decode_token ::
  "(string \<Rightarrow> 'g \<Rightarrow> 'g) \<Rightarrow> ('g, 'a, 'l) TraceDecoder \<Rightarrow> ('g, 'a vec) store \<Rightarrow> int list
   \<Rightarrow> TraceDecoderState \<Rightarrow> 'a vec list option
   \<Rightarrow> error + (('g, 'a vec) store \<times> TraceDecoderState \<times> 'l list)" where
  "TraceDecoder_decode_token sim net H token state io_embed =
     (case advance_grids sim net H token state of
        Inl e \<Rightarrow> Inl e
      | Inr (H2, fields_ref, grid_embed) \<Rightarrow>
     (case traverse (embed_action (action_embed net)) token of
        Inl e \<Rightarrow> Inl e
      | Inr act \<Rightarrow>
     (case maybe_concat1 act grid_embed of
        Inl e \<Rightarrow> Inl e
      | Inr x1 \<Rightarrow>
     (case maybe_concat1 x1 io_embed of
        Inl e \<Rightarrow> Inl e
      | Inr dec_input \<Rightarrow>
     (case (get_layers H2 (td_h state), get_layers H2 (td_c state)) of
        (Some hh, Some cc) \<Rightarrow>
          (case lstm_forward (trace_decoder_cell net) dec_input hh cc of
             Inl e \<Rightarrow> Inl e
           | Inr (dec_output, h', c') \<Rightarrow>
               (let (H3, rh) = alloc H2 (Layers h');
                    (H4, rc) = alloc H3 (Layers c')
                in Inr (H4, \<lparr> td_field = fields_ref, td_h = rh, td_c = rc \<rparr>,
                        map (trace_out net) dec_output)))
      | _ \<Rightarrow> Inl TypeError)))))"

section \<open>Concrete collaborators for evaluating the model\<close>

text \<open>
  Stand-ins for the learned modules, over integer vectors: the embedding of a token is
  the one-entry vector holding it, the recurrent transform returns its input and keeps
  its state, the attention readout is the trace itself and the projection is the
  identity. The decoders are the ones the constructor builds for \<open>none\<close> and for
  \<open>memory\<close>.
\<close>

definition example_modules :: "(int, int, int vec, int vec) modules" where
  "example_modules =
     \<lparr> code_embed = (\<lambda>t. [t]), decoder_cell = (\<lambda>x hh cc. (x, hh, cc)),
       trace_attention = (\<lambda>q m. m), out_linear = (\<lambda>v. v) \<rparr>"

definition decoder_without_trace :: LatePoolingCodeDecoder where
  "decoder_without_trace =
     \<lparr> use_trace_memory = False, use_trace_state = False, use_io_embed = True,
       decoder_input_size = 768, out_in_features = 256 \<rparr>"

definition decoder_with_trace :: LatePoolingCodeDecoder where
  "decoder_with_trace =
     \<lparr> use_trace_memory = True, use_trace_state = False, use_io_embed = True,
       decoder_input_size = 1280, out_in_features = 768 \<rparr>"

definition no_memory :: "(int, int vec) Memory" where
  "no_memory = \<lparr> mem_io = None, mem_trace = None \<rparr>"

text \<open>One beam with two pairs and no context; the hidden vectors have one entry.\<close>

definition two_pair_state :: "int vec list State" where
  "two_pair_state =
     \<lparr> pairs_per_example = 2, st_context = None,
       st_h = [[[[0], [0]]], [[[0], [0]]]], st_c = [[[[0], [0]]], [[[0], [0]]]] \<rparr>"

text \<open>
  A store with the three arrays of a state of two examples with two beams each (rows
  \<open>ex0/beam0, ex0/beam1, ex1/beam0, ex1/beam1\<close>), and the index set that keeps beam 0
  and beam 1 of example 0 and beam 0 of example 1.
\<close>

definition beam_store :: "(nat, nat) store" where
  "beam_store = [Rows [10, 11, 20, 21], Layers [[1, 2, 3, 4], [5, 6, 7, 8]],
                 Layers [[31, 32, 33, 34], [35, 36, 37, 38]]]"

definition beam_indices :: "(int \<times> int) list" where
  "beam_indices = [(0, 0), (0, 1), (1, 0)]"

text \<open>
  A trace decoder without and with a grid encoder, over grids that are plain counters;
  the stand-in simulator advances the counter by one for every action. The store holds
  the field of two beams and their two-layer recurrent state.
\<close>

definition count_steps :: "string \<Rightarrow> nat \<Rightarrow> nat" where
  "count_steps name g = Suc g"

definition trace_decoder_off :: "(nat, int, int vec) TraceDecoder" where
  "trace_decoder_off =
     \<lparr> grid_encoder = None, action_embed = (\<lambda>i. [int i]),
       trace_decoder_cell = (\<lambda>x hh cc. (x, hh, cc)), trace_out = (\<lambda>v. v) \<rparr>"

definition trace_decoder_on :: "(nat, int, int vec) TraceDecoder" where
  "trace_decoder_on =
     \<lparr> grid_encoder = Some (\<lambda>g. [int g]), action_embed = (\<lambda>i. [int i]),
       trace_decoder_cell = (\<lambda>x hh cc. (x, hh, cc)), trace_out = (\<lambda>v. v) \<rparr>"

definition grid_store :: "(nat, int vec) store" where
  "grid_store = [Rows [5, 7], Layers [[[0], [0]], [[0], [0]]], Layers [[[0], [0]], [[0], [0]]]]"

definition grid_state :: TraceDecoderState where
  "grid_state = \<lparr> td_field = 0, td_h = 1, td_c = 2 \<rparr>"

section \<open>Regrouping rows\<close>

lemma length_unflatten: "length (unflatten ns xs) = length ns"
  by (induction ns arbitrary: xs) auto

lemma unflatten_replicate_nth:
  "b < n \<Longrightarrow> unflatten (replicate n p) xs ! b = take p (drop (b * p) xs)"
proof (induction n arbitrary: xs b)
  case 0
  then show ?case by simp
next
  case (Suc n)
  show ?case
  proof (cases b)
    case 0
    then show ?thesis by simp
  next
    case (Suc b')
    with Suc.prems have "b' < n" by simp
    from Suc.IH [OF this, of "drop p xs"] Suc show ?thesis
      by (simp add: add.commute)
  qed
qed

lemma unflatten_singletons: "unflatten (replicate (length xs) (Suc 0)) xs = map (\<lambda>x. [x]) xs"
  by (induction xs) (auto simp: take_Suc drop_Suc split: list.splits)

lemma traverse_Inr:
  "traverse f xs = Inr ys \<Longrightarrow> list_all2 (\<lambda>x y. f x = Inr y) xs ys"
  by (induction xs arbitrary: ys) (auto split: sum.splits)

lemma concat_unflatten:
  "length xs = sum_list ns \<Longrightarrow> concat (unflatten ns xs) = xs"
proof (induction ns arbitrary: xs)
  case Nil
  then show ?case by simp
next
  case (Cons n ns)
  then have "concat (unflatten ns (drop n xs)) = drop n xs" by simp
  then show ?case by simp
qed

lemma map_length_unflatten:
  "length xs = sum_list ns \<Longrightarrow> map length (unflatten ns xs) = ns"
  by (induction ns arbitrary: xs) auto

section \<open>Selecting the surviving beams\<close>


lemma traverse_map:
  "\<forall>x \<in> set xs. f x = Inr (g x) \<Longrightarrow> traverse f xs = Inr (map g xs)"
  by (induction xs) auto

lemma view_beams_exact:
  "0 < B \<Longrightarrow> length xs = B * W \<Longrightarrow> view_beams B xs = Inr (unflatten (replicate B W) xs)"
  by (simp add: view_beams_def)

lemma index_pair_view:
  assumes "length xs = B * W" and "0 \<le> a" "a < int B" "0 \<le> b" "b < int W"
  shows "index_pair (unflatten (replicate B W) xs) (a, b) = Inr (xs ! (nat a * W + nat b))"
proof -
  let ?v = "unflatten (replicate B W) xs"
  have a: "nat a < B" using assms by simp
  have b: "nat b < W" using assms by simp
  have row: "?v ! nat a = take W (drop (nat a * W) xs)"
    using a by (rule unflatten_replicate_nth)
  have "nat a * W + W \<le> B * W"
  proof -
    have "Suc (nat a) \<le> B" using a by simp
    then have "Suc (nat a) * W \<le> B * W" by (rule mult_le_mono1)
    then show ?thesis by simp
  qed
  then have len: "length (take W (drop (nat a * W) xs)) = W" using assms(1) by simp
  have p1: "py_index ?v a = Inr (?v ! nat a)"
    using assms by (simp add: py_index_def length_unflatten)
  have p2: "py_index (take W (drop (nat a * W) xs)) b = Inr (take W (drop (nat a * W) xs) ! nat b)"
    using assms len by (simp add: py_index_def)
  have "take W (drop (nat a * W) xs) ! nat b = xs ! (nat a * W + nat b)"
  proof -
    have "nat a * W \<le> length xs"
      using \<open>nat a * W + W \<le> B * W\<close> assms(1) by linarith
    then show ?thesis using b by (simp add: nth_drop)
  qed
  with p1 p2 row show ?thesis by (simp add: index_pair_def)
qed


lemma select_rows_nth:
  assumes "0 < B" "length xs = B * W" "valid_indices B W idx"
  shows "select_rows B idx xs = Inr (map (\<lambda>(a, b). xs ! (nat a * W + nat b)) idx)"
proof -
  have "\<forall>p \<in> set idx. index_pair (unflatten (replicate B W) xs) p
          = Inr ((\<lambda>(a, b). xs ! (nat a * W + nat b)) p)"
    using assms(3) index_pair_view [OF assms(2)] by (auto simp: valid_indices_def)
  from traverse_map [OF this] view_beams_exact [OF assms(1,2)] show ?thesis
    by (simp add: select_rows_def)
qed

lemma select_layers_nth:
  assumes "0 < B" "length v = 2" "\<forall>l \<in> set v. length l = B * W" "valid_indices B W idx"
  shows "select_layers B idx v
         = Inr (map (\<lambda>l. map (\<lambda>(a, b). l ! (nat a * W + nat b)) idx) v)"
proof -
  have "\<forall>l \<in> set v. select_rows B idx l = Inr (map (\<lambda>(a, b). l ! (nat a * W + nat b)) idx)"
    using assms by (auto intro: select_rows_nth)
  from traverse_map [OF this] assms(2) show ?thesis by (simp add: select_layers_def)
qed


lemma get_rows_alloc_new: "get_rows (H @ [Rows xs]) (length H) = Some xs"
  by (simp add: get_rows_def)

lemma get_layers_alloc_new: "get_layers (H @ [Layers v]) (length H) = Some v"
  by (simp add: get_layers_def)

lemma get_rows_append: "a < length H \<Longrightarrow> get_rows (H @ H2) a = get_rows H a"
  by (simp add: get_rows_def nth_append)

lemma get_layers_append: "a < length H \<Longrightarrow> get_layers (H @ H2) a = get_layers H a"
  by (simp add: get_layers_def nth_append)

lemma State_select_for_beams_nth:
  assumes "0 < B" "valid_indices B W idx"
    and "\<forall>ctx. st_context s = Some ctx \<longrightarrow> length ctx = B * W"
    and "length (st_h s) = 2" "\<forall>l \<in> set (st_h s). length l = B * W"
    and "length (st_c s) = 2" "\<forall>l \<in> set (st_c s). length l = B * W"
  shows "State_select_for_beams B idx s =
     Inr \<lparr> pairs_per_example = pairs_per_example s,
           st_context = map_option (\<lambda>t. map (\<lambda>(a, b). t ! (nat a * W + nat b)) idx) (st_context s),
           st_h = map (\<lambda>l. map (\<lambda>(a, b). l ! (nat a * W + nat b)) idx) (st_h s),
           st_c = map (\<lambda>l. map (\<lambda>(a, b). l ! (nat a * W + nat b)) idx) (st_c s) \<rparr>"
proof -
  note h = select_layers_nth [OF assms(1) assms(4) assms(5) assms(2)]
  note c = select_layers_nth [OF assms(1) assms(6) assms(7) assms(2)]
  show ?thesis
  proof (cases "st_context s")
    case None
    with h c show ?thesis by (simp add: State_select_for_beams_def)
  next
    case (Some ctx)
    with assms(3) have "length ctx = B * W" by simp
    from select_rows_nth [OF assms(1) this assms(2)] Some h c show ?thesis
      by (simp add: State_select_for_beams_def)
  qed
qed

lemma store_State_props:
  assumes "store_State H s = (H', r)"
  shows "load_State H' r = Some s \<and> take (length H) H' = H
         \<and> (\<forall>a. sr_context r = Some a \<longrightarrow> length H \<le> a \<and> a < sr_h r) \<and> length H \<le> sr_h r
         \<and> sr_h r < sr_c r \<and> sr_c r < length H'
         \<and> (sr_context r = None) = (st_context s = None)"
proof (cases "st_context s")
  case None
  with assms have H': "H' = H @ [Layers (st_h s), Layers (st_c s)]"
    and r: "r = \<lparr> sr_pairs_per_example = pairs_per_example s, sr_context = None,
                  sr_h = length H, sr_c = Suc (length H) \<rparr>"
    by (auto simp: store_State_def alloc_def)
  show ?thesis using None
    by (simp add: H' r load_State_def get_layers_def nth_append)
next
  case (Some ctx)
  with assms have H': "H' = H @ [Rows ctx, Layers (st_h s), Layers (st_c s)]"
    and r: "r = \<lparr> sr_pairs_per_example = pairs_per_example s, sr_context = Some (length H),
                  sr_h = Suc (length H), sr_c = Suc (Suc (length H)) \<rparr>"
    by (auto simp: store_State_def alloc_def)
  show ?thesis using Some
    by (simp add: H' r load_State_def get_layers_def get_rows_def nth_append)
qed


lemma TraceDecoderState_select_result:
  assumes f: "get_rows H (td_field s) = Some f"
    and h: "get_layers H (td_h s) = Some hh" and c: "get_layers H (td_c s) = Some cc"
    and B: "0 < B" and idx: "valid_indices B W idx"
    and lf: "length f = B * W"
    and lh: "length hh = 2" "\<forall>l \<in> set hh. length l = B * W"
    and lc: "length cc = 2" "\<forall>l \<in> set cc. length l = B * W"
  shows "TraceDecoderState_select_for_beams H B idx s =
     Inr (H @ [Rows (map (\<lambda>(a, b). f ! (nat a * W + nat b)) idx),
               Layers (map (\<lambda>l. map (\<lambda>(a, b). l ! (nat a * W + nat b)) idx) hh),
               Layers (map (\<lambda>l. map (\<lambda>(a, b). l ! (nat a * W + nat b)) idx) cc)],
          \<lparr> td_field = length H, td_h = Suc (length H), td_c = Suc (Suc (length H)) \<rparr>)"
  using f h c select_rows_nth [OF B lf idx] select_layers_nth [OF B lh idx]
    select_layers_nth [OF B lc idx]
  by (simp add: TraceDecoderState_select_for_beams_def numpy_select_rows_def alloc_def)

text \<open>
  Claim C1. For a state holding \<open>B * W\<close> active rows and a \<open>2 x K\<close> index set
  whose columns name existing (example, beam) pairs, \<open>select_for_beams\<close> of both
  state classes returns a state whose every field that is not \<open>None\<close> has one row
  per column, in column order, row \<open>j\<close> being the source row at position
  \<open>indices[0][j] * W + indices[1][j]\<close>, that is at \<open>(indices[0][j], indices[1][j])\<close>
  of the example-major view. The fields of the result are new arrays, at addresses the
  store did not have before, and every array that existed before is unchanged: the rows
  are copies, not aliases.
\<close>

theorem select_for_beams_gathers_copies:
  "(get_rows H (td_field s) = Some f \<and> get_layers H (td_h s) = Some hh
      \<and> get_layers H (td_c s) = Some cc
      \<and> 0 < B \<and> valid_indices B W idx \<and> length f = B * W
      \<and> length hh = 2 \<and> (\<forall>l \<in> set hh. length l = B * W)
      \<and> length cc = 2 \<and> (\<forall>l \<in> set cc. length l = B * W)
    \<longrightarrow> (\<exists>H' s'. TraceDecoderState_select_for_beams H B idx s = Inr (H', s')
          \<and> get_rows H' (td_field s') = Some (map (\<lambda>(a, b). f ! (nat a * W + nat b)) idx)
          \<and> get_layers H' (td_h s')
              = Some (map (\<lambda>l. map (\<lambda>(a, b). l ! (nat a * W + nat b)) idx) hh)
          \<and> get_layers H' (td_c s')
              = Some (map (\<lambda>l. map (\<lambda>(a, b). l ! (nat a * W + nat b)) idx) cc)
          \<and> length H \<le> td_field s' \<and> td_field s' < td_h s' \<and> td_h s' < td_c s'
          \<and> take (length H) H' = H))
   \<and> (load_State G r = Some t
      \<and> 0 < B \<and> valid_indices B W idx
      \<and> (\<forall>ctx. st_context t = Some ctx \<longrightarrow> length ctx = B * W)
      \<and> length (st_h t) = 2 \<and> (\<forall>l \<in> set (st_h t). length l = B * W)
      \<and> length (st_c t) = 2 \<and> (\<forall>l \<in> set (st_c t). length l = B * W)
    \<longrightarrow> (\<exists>G' r'. State_select_for_beams_obj G B idx r = Inr (G', r')
          \<and> load_State G' r' =
              Some \<lparr> pairs_per_example = pairs_per_example t,
                     st_context = map_option (\<lambda>x. map (\<lambda>(a, b). x ! (nat a * W + nat b)) idx)
                                    (st_context t),
                     st_h = map (\<lambda>l. map (\<lambda>(a, b). l ! (nat a * W + nat b)) idx) (st_h t),
                     st_c = map (\<lambda>l. map (\<lambda>(a, b). l ! (nat a * W + nat b)) idx) (st_c t) \<rparr>
          \<and> (sr_context r' = None) = (st_context t = None)
          \<and> (\<forall>a. sr_context r' = Some a \<longrightarrow> length G \<le> a \<and> a < sr_h r')
          \<and> length G \<le> sr_h r' \<and> sr_h r' < sr_c r'
          \<and> take (length G) G' = G))"
proof (intro conjI impI)
  assume a: "get_rows H (td_field s) = Some f \<and> get_layers H (td_h s) = Some hh
      \<and> get_layers H (td_c s) = Some cc
      \<and> 0 < B \<and> valid_indices B W idx \<and> length f = B * W
      \<and> length hh = 2 \<and> (\<forall>l \<in> set hh. length l = B * W)
      \<and> length cc = 2 \<and> (\<forall>l \<in> set cc. length l = B * W)"
  then have r: "TraceDecoderState_select_for_beams H B idx s =
     Inr (H @ [Rows (map (\<lambda>(a, b). f ! (nat a * W + nat b)) idx),
               Layers (map (\<lambda>l. map (\<lambda>(a, b). l ! (nat a * W + nat b)) idx) hh),
               Layers (map (\<lambda>l. map (\<lambda>(a, b). l ! (nat a * W + nat b)) idx) cc)],
          \<lparr> td_field = length H, td_h = Suc (length H), td_c = Suc (Suc (length H)) \<rparr>)"
    by (intro TraceDecoderState_select_result) simp_all
  show "\<exists>H' s'. TraceDecoderState_select_for_beams H B idx s = Inr (H', s')
          \<and> get_rows H' (td_field s') = Some (map (\<lambda>(a, b). f ! (nat a * W + nat b)) idx)
          \<and> get_layers H' (td_h s')
              = Some (map (\<lambda>l. map (\<lambda>(a, b). l ! (nat a * W + nat b)) idx) hh)
          \<and> get_layers H' (td_c s')
              = Some (map (\<lambda>l. map (\<lambda>(a, b). l ! (nat a * W + nat b)) idx) cc)
          \<and> length H \<le> td_field s' \<and> td_field s' < td_h s' \<and> td_h s' < td_c s'
          \<and> take (length H) H' = H"
    unfolding r by (simp add: get_rows_def get_layers_def nth_append)
next
  assume a: "load_State G r = Some t
      \<and> 0 < B \<and> valid_indices B W idx
      \<and> (\<forall>ctx. st_context t = Some ctx \<longrightarrow> length ctx = B * W)
      \<and> length (st_h t) = 2 \<and> (\<forall>l \<in> set (st_h t). length l = B * W)
      \<and> length (st_c t) = 2 \<and> (\<forall>l \<in> set (st_c t). length l = B * W)"
  let ?t' = "\<lparr> pairs_per_example = pairs_per_example t,
                     st_context = map_option (\<lambda>x. map (\<lambda>(a, b). x ! (nat a * W + nat b)) idx)
                                    (st_context t),
                     st_h = map (\<lambda>l. map (\<lambda>(a, b). l ! (nat a * W + nat b)) idx) (st_h t),
                     st_c = map (\<lambda>l. map (\<lambda>(a, b). l ! (nat a * W + nat b)) idx) (st_c t) \<rparr>"
  from a have v: "State_select_for_beams B idx t = Inr ?t'"
    by (intro State_select_for_beams_nth) simp_all
  obtain G' r' where st: "store_State G ?t' = (G', r')" by (cases "store_State G ?t'")
  from a v st have res: "State_select_for_beams_obj G B idx r = Inr (G', r')"
    by (simp add: State_select_for_beams_obj_def)
  from store_State_props [OF st] res
  show "\<exists>G' r'. State_select_for_beams_obj G B idx r = Inr (G', r')
          \<and> load_State G' r' = Some ?t'
          \<and> (sr_context r' = None) = (st_context t = None)
          \<and> (\<forall>a. sr_context r' = Some a \<longrightarrow> length G \<le> a \<and> a < sr_h r')
          \<and> length G \<le> sr_h r' \<and> sr_h r' < sr_c r'
          \<and> take (length G) G' = G"
    by (intro exI [of _ G'] exI [of _ r']) simp
qed


lemma beam_store_arrays:
  "get_rows beam_store 0 = Some [10, 11, 20, 21]"
  "get_layers beam_store (Suc 0) = Some [[1, 2, 3, 4], [5, 6, 7, 8]]"
  "get_layers beam_store 2 = Some [[31, 32, 33, 34], [35, 36, 37, 38]]"
  "length beam_store = 3"
  by (simp_all add: beam_store_def get_rows_def get_layers_def)

lemma beam_indices_valid: "valid_indices 2 2 [(0, 0), (0, 1), (1, 0)]"
  by (simp add: valid_indices_def)

theorem select_for_beams_gathers_copies_witness:
  "(\<exists>H' s'. TraceDecoderState_select_for_beams beam_store 2 beam_indices
               \<lparr> td_field = 0, td_h = 1, td_c = 2 \<rparr> = Inr (H', s')
        \<and> get_rows H' (td_field s') = Some [10, 11, 20]
        \<and> get_layers H' (td_h s') = Some [[1, 2, 3], [5, 6, 7]]
        \<and> get_layers H' (td_c s') = Some [[31, 32, 33], [35, 36, 37]]
        \<and> 3 \<le> td_field s' \<and> td_field s' < td_h s' \<and> td_h s' < td_c s'
        \<and> take 3 H' = beam_store)
   \<and> (\<exists>G' r'. State_select_for_beams_obj beam_store 2 beam_indices
               \<lparr> sr_pairs_per_example = 1, sr_context = Some 0, sr_h = 1, sr_c = 2 \<rparr>
             = Inr (G', r')
        \<and> load_State G' r' =
            Some \<lparr> pairs_per_example = 1, st_context = Some [10, 11, 20],
                   st_h = [[1, 2, 3], [5, 6, 7]], st_c = [[31, 32, 33], [35, 36, 37]] \<rparr>
        \<and> (sr_context r' \<noteq> None)
        \<and> (\<forall>a. sr_context r' = Some a \<longrightarrow> 3 \<le> a \<and> a < sr_h r')
        \<and> 3 \<le> sr_h r' \<and> sr_h r' < sr_c r'
        \<and> take 3 G' = beam_store)"
proof -
  let ?t = "\<lparr> pairs_per_example = 1, st_context = Some [10, 11, 20, 21 :: nat],
              st_h = [[1, 2, 3, 4], [5, 6, 7, 8]],
              st_c = [[31, 32, 33, 34], [35, 36, 37, 38]] \<rparr>"
  note inst = select_for_beams_gathers_copies
    [where H = beam_store and s = "\<lparr> td_field = 0, td_h = 1, td_c = 2 \<rparr>"
       and f = "[10, 11, 20, 21]" and hh = "[[1, 2, 3, 4], [5, 6, 7, 8]]"
       and cc = "[[31, 32, 33, 34], [35, 36, 37, 38]]" and B = 2 and W = 2
       and idx = beam_indices and G = beam_store
       and r = "\<lparr> sr_pairs_per_example = 1, sr_context = Some 0, sr_h = 1, sr_c = 2 \<rparr>"
       and t = ?t]
  have l: "load_State beam_store
             \<lparr> sr_pairs_per_example = Suc 0, sr_context = Some 0, sr_h = Suc 0, sr_c = 2 \<rparr>
           = Some \<lparr> pairs_per_example = Suc 0, st_context = Some [10, 11, 20, 21 :: nat],
              st_h = [[Suc 0, 2, 3, 4], [5, 6, 7, 8]],
              st_c = [[31, 32, 33, 34], [35, 36, 37, 38]] \<rparr>"
    by (simp add: load_State_def beam_store_def get_rows_def get_layers_def)
  show ?thesis
    using inst
    by (simp add: beam_store_arrays beam_indices_valid beam_indices_def l)
qed

section \<open>The grids across a step of the trace decoder\<close>

lemma id_to_action_lookup_tensor: "id_to_action_lookup (Scalar_tensor v) = None"
  by (simp add: id_to_action_lookup_def)

text \<open>A run of the loop that does not raise has written nothing.\<close>

lemma advance_fields_returns:
  "advance_fields sim H r i ts = Inr H' \<Longrightarrow> H' = H"
proof (induction ts arbitrary: i)
  case Nil
  then show ?case by simp
next
  case (Cons t ts)
  show ?case
  proof (cases "get_rows H r")
    case None
    with Cons.prems show ?thesis by simp
  next
    case (Some rows)
    show ?thesis
    proof (cases "length rows \<le> i")
      case True
      with Cons.prems Some show ?thesis by simp
    next
      case False
      show ?thesis
      proof (cases "is_marker_id t")
        case True
        with Cons.prems Some False have "advance_fields sim H r (Suc i) ts = Inr H'" by simp
        then show ?thesis by (rule Cons.IH)
      next
        case nm: False
        with Cons.prems Some False show ?thesis
          by (simp add: id_to_action_lookup_tensor)
      qed
    qed
  qed
qed

lemma traverse_length: "traverse f xs = Inr ys \<Longrightarrow> length ys = length xs"
  by (induction xs arbitrary: ys) (auto split: sum.splits)

lemma advance_grids_off:
  "grid_encoder net = None \<Longrightarrow> advance_grids sim net H token s = Inr (H, td_field s, None)"
  by (simp add: advance_grids_def)

lemma advance_grids_on:
  assumes "grid_encoder net = Some enc"
    and "advance_grids sim net H token s = Inr (H2, fr, ge)"
  shows "\<exists>old. get_rows H (td_field s) = Some old \<and> fr = length H
           \<and> H2 = H @ [Rows old] \<and> get_rows H2 fr = Some old \<and> ge = Some (map enc old)"
proof -
  obtain old where o: "get_rows H (td_field s) = Some old"
    using assms by (cases "get_rows H (td_field s)") (simp_all add: advance_grids_def)
  obtain H2' where a': "advance_fields sim (H @ [Rows old]) (length H) 0 token = Inr H2'"
    using assms o
    by (cases "advance_fields sim (H @ [Rows old]) (length H) 0 token")
      (simp_all add: advance_grids_def alloc_def)
  from advance_fields_returns [OF a'] have h: "H2' = H @ [Rows old]" .
  have g: "get_rows (H @ [Rows old]) (length H) = Some old" by (simp add: get_rows_def)
  from assms o a' h g have "H2 = H @ [Rows old]" "fr = length H" "ge = Some (map enc old)"
    by (simp_all add: advance_grids_def alloc_def)
  with o g show ?thesis by simp
qed

lemma maybe_concat1_length:
  "maybe_concat1 a ob = Inr r \<Longrightarrow> length r = length a \<and> (\<forall>b. ob = Some b \<longrightarrow> length b = length a)"
  by (auto simp: maybe_concat1_def split: option.splits if_splits)

lemma decode_token_parts:
  assumes "TraceDecoder_decode_token sim net H token s io = Inr (H', s', lg)"
  shows "\<exists>H2 fr ge act x1 h' c'.
           advance_grids sim net H token s = Inr (H2, fr, ge)
           \<and> traverse (embed_action (action_embed net)) token = Inr act
           \<and> maybe_concat1 act ge = Inr x1
           \<and> H' = H2 @ [Layers h', Layers c']
           \<and> s' = \<lparr> td_field = fr, td_h = length H2, td_c = Suc (length H2) \<rparr>"
proof -
  obtain H2 fr ge where g: "advance_grids sim net H token s = Inr (H2, fr, ge)"
    using assms
    by (cases "advance_grids sim net H token s") (auto simp: TraceDecoder_decode_token_def)
  obtain act where t: "traverse (embed_action (action_embed net)) token = Inr act"
    using assms g
    by (cases "traverse (embed_action (action_embed net)) token")
      (auto simp: TraceDecoder_decode_token_def)
  obtain x1 where c1: "maybe_concat1 act ge = Inr x1"
    using assms g t
    by (cases "maybe_concat1 act ge") (auto simp: TraceDecoder_decode_token_def)
  obtain x2 where c2: "maybe_concat1 x1 io = Inr x2"
    using assms g t c1
    by (cases "maybe_concat1 x1 io") (auto simp: TraceDecoder_decode_token_def)
  obtain hh where h: "get_layers H2 (td_h s) = Some hh"
    using assms g t c1 c2
    by (cases "get_layers H2 (td_h s)") (auto simp: TraceDecoder_decode_token_def)
  obtain cc where c: "get_layers H2 (td_c s) = Some cc"
    using assms g t c1 c2 h
    by (cases "get_layers H2 (td_c s)") (auto simp: TraceDecoder_decode_token_def)
  obtain out h' c' where l: "lstm_forward (trace_decoder_cell net) x2 hh cc = Inr (out, h', c')"
    using assms g t c1 c2 h c
    by (cases "lstm_forward (trace_decoder_cell net) x2 hh cc")
      (auto simp: TraceDecoder_decode_token_def)
  from assms g t c1 c2 h c l
  have "H' = H2 @ [Layers h', Layers c']"
    "s' = \<lparr> td_field = fr, td_h = length H2, td_c = Suc (length H2) \<rparr>"
    by (simp_all add: TraceDecoder_decode_token_def alloc_def)
  with g t c1 show ?thesis by blast
qed


text \<open>
  Claim C3, as the code has it. In a call that returns, a beam whose token is a marker
  (id below 2: \<open><s>\<close> or \<open></s>\<close>) has the same grid in the returned state as in
  the input state, with or without a grid encoder. Without a grid encoder no grid is
  advanced: the returned field equals the input field for every token.
\<close>

theorem marker_tokens_keep_grid:
  "TraceDecoder_decode_token sim net H token s io = Inr (H', s', lg)
     \<and> get_rows H (td_field s) = Some old \<longrightarrow>
   (\<exists>new. get_rows H' (td_field s') = Some new \<and> length new = length old
      \<and> (\<forall>j < length old. j < length token \<and> is_marker_id (token ! j) \<longrightarrow> new ! j = old ! j)
      \<and> (grid_encoder net = None \<longrightarrow> new = old))"
proof
  assume a: "TraceDecoder_decode_token sim net H token s io = Inr (H', s', lg)
     \<and> get_rows H (td_field s) = Some old"
  then have o: "get_rows H (td_field s) = Some old" by simp
  then have lt: "td_field s < length H" by (auto simp: get_rows_def split: if_splits)
  from a decode_token_parts [of sim net H token s io H' s' lg]
  obtain H2 fr ge act x1 h' c' where
    g: "advance_grids sim net H token s = Inr (H2, fr, ge)"
    and H': "H' = H2 @ [Layers h', Layers c']"
    and s': "s' = \<lparr> td_field = fr, td_h = length H2, td_c = Suc (length H2) \<rparr>"
    by blast
  have "get_rows H' (td_field s') = Some old"
  proof (cases "grid_encoder net")
    case None
    with g have "H2 = H" "fr = td_field s" by (simp_all add: advance_grids_off)
    with H' s' o lt show ?thesis by (simp add: get_rows_append)
  next
    case (Some enc)
    from advance_grids_on [OF Some g] o
    have "fr = length H" "H2 = H @ [Rows old]" by auto
    with H' s' show ?thesis by (simp add: get_rows_def nth_append)
  qed
  then show "\<exists>new. get_rows H' (td_field s') = Some new \<and> length new = length old
      \<and> (\<forall>j < length old. j < length token \<and> is_marker_id (token ! j) \<longrightarrow> new ! j = old ! j)
      \<and> (grid_encoder net = None \<longrightarrow> new = old)"
    by simp
qed

text \<open>
  Claim C4, as the code has it. A call that returns leaves every array that existed
  before it unchanged, the input state's field included, and the recurrent state it
  returns is held in new arrays. With a grid encoder the returned field is a new array,
  the copy made at this step, different from the input state's. Without a grid encoder
  the returned state holds the input state's own field array.
\<close>

theorem decode_token_store_frame:
  "TraceDecoder_decode_token sim net H token s io = Inr (H', s', lg) \<longrightarrow>
     take (length H) H' = H
     \<and> length H \<le> td_h s' \<and> td_h s' < td_c s' \<and> td_c s' < length H'
     \<and> (grid_encoder net \<noteq> None \<longrightarrow>
          td_field s' = length H \<and> td_field s < length H \<and> td_field s' < td_h s')
     \<and> (grid_encoder net = None \<longrightarrow> td_field s' = td_field s)"
proof
  assume a: "TraceDecoder_decode_token sim net H token s io = Inr (H', s', lg)"
  from decode_token_parts [OF a]
  obtain H2 fr ge act x1 h' c' where
    g: "advance_grids sim net H token s = Inr (H2, fr, ge)"
    and H': "H' = H2 @ [Layers h', Layers c']"
    and s': "s' = \<lparr> td_field = fr, td_h = length H2, td_c = Suc (length H2) \<rparr>"
    by blast
  show "take (length H) H' = H
     \<and> length H \<le> td_h s' \<and> td_h s' < td_c s' \<and> td_c s' < length H'
     \<and> (grid_encoder net \<noteq> None \<longrightarrow>
          td_field s' = length H \<and> td_field s < length H \<and> td_field s' < td_h s')
     \<and> (grid_encoder net = None \<longrightarrow> td_field s' = td_field s)"
  proof (cases "grid_encoder net")
    case None
    with g have "H2 = H" "fr = td_field s" by (simp_all add: advance_grids_off)
    with H' s' None show ?thesis by simp
  next
    case (Some enc)
    from advance_grids_on [OF Some g] obtain old where
      o: "get_rows H (td_field s) = Some old"
      and fr: "fr = length H" and H2: "H2 = H @ [Rows old]"
      by auto
    from o have lt: "td_field s < length H" by (auto simp: get_rows_def split: if_splits)
    from fr H2 lt H' s' Some show ?thesis by simp
  qed
qed

lemma decode_token_without_grid_encoder:
  "TraceDecoder_decode_token count_steps trace_decoder_off grid_store [1, 2] grid_state
     (Some [[9], [9]])
   = Inr (grid_store @ [Layers [[[0], [0]], [[0], [0]]], Layers [[[0], [0]], [[0], [0]]]],
          \<lparr> td_field = 0, td_h = 3, td_c = 4 \<rparr>, [[1, 9], [2, 9]])"
  by (simp add: TraceDecoder_decode_token_def advance_grids_def trace_decoder_off_def
      grid_store_def grid_state_def embed_action_def maybe_concat1_def get_layers_def
      lstm_forward_def alloc_def)

lemma decode_token_markers_with_grid_encoder:
  "TraceDecoder_decode_token count_steps trace_decoder_on grid_store [0, 1] grid_state
     (Some [[9], [9]])
   = Inr (grid_store @ [Rows [5, 7], Layers [[[0], [0]], [[0], [0]]],
                        Layers [[[0], [0]], [[0], [0]]]],
          \<lparr> td_field = 3, td_h = 4, td_c = 5 \<rparr>, [[0, 5, 9], [1, 7, 9]])"
  by (simp add: TraceDecoder_decode_token_def advance_grids_def trace_decoder_on_def
      grid_store_def grid_state_def embed_action_def maybe_concat1_def get_layers_def
      get_rows_def lstm_forward_def alloc_def is_marker_id_def)

text \<open>
  With the grid encoder on, a token that is not a marker stops the call: the lookup
  with the tensor as key raises KeyError.
\<close>

lemma decode_token_action_with_grid_encoder_raises:
  "TraceDecoder_decode_token count_steps trace_decoder_on grid_store [1, 2] grid_state
     (Some [[9], [9]])
   = Inl KeyError"
  by (simp add: TraceDecoder_decode_token_def advance_grids_def trace_decoder_on_def
      grid_store_def grid_state_def get_rows_def alloc_def is_marker_id_def
      id_to_action_lookup_def)

lemma grid_store_field: "get_rows grid_store (td_field grid_state) = Some [5, 7]"
  by (simp add: grid_store_def grid_state_def get_rows_def)

theorem marker_tokens_keep_grid_witness:
  "TraceDecoder_decode_token count_steps trace_decoder_on grid_store [0, 1] grid_state
     (Some [[9], [9]])
   = Inr (grid_store @ [Rows [5, 7], Layers [[[0], [0]], [[0], [0]]],
                        Layers [[[0], [0]], [[0], [0]]]],
          \<lparr> td_field = 3, td_h = 4, td_c = 5 \<rparr>, [[0, 5, 9], [1, 7, 9]])
   \<and> get_rows grid_store (td_field grid_state) = Some [5, 7]
   \<and> (\<exists>new. get_rows (grid_store @ [Rows [5, 7], Layers [[[0], [0]], [[0], [0]]],
                        Layers [[[0], [0]], [[0], [0]]]]) 3 = Some new
          \<and> length new = 2 \<and> new ! 0 = 5 \<and> new ! 1 = 7)"
proof -
  from marker_tokens_keep_grid [THEN mp,
      OF conjI [OF decode_token_markers_with_grid_encoder grid_store_field]]
  obtain new where
    g: "get_rows (grid_store @ [Rows [5, 7], Layers [[[0], [0]], [[0], [0]]],
                        Layers [[[0], [0]], [[0], [0]]]])
          (td_field \<lparr> td_field = 3, td_h = 4, td_c = 5 \<rparr>) = Some new"
    and l: "length new = length [5 :: nat, 7]"
    and m: "\<forall>j < length [5 :: nat, 7]. j < length [0 :: int, 1] \<and> is_marker_id ([0, 1] ! j)
              \<longrightarrow> new ! j = [5, 7] ! j"
    by blast
  from m [rule_format, of 0] have m0: "new ! 0 = 5" by (simp add: is_marker_id_def)
  from m [rule_format, of 1] have m1: "new ! 1 = 7" by (simp add: is_marker_id_def)
  from g l m0 m1 decode_token_markers_with_grid_encoder grid_store_field
  show ?thesis by simp
qed

text \<open>
  Without a grid encoder the beam with token 2 (\<open>move\<close>) keeps its grid 7, where one
  application of the simulator gives 8.
\<close>

theorem grid_not_advanced_counterexample:
  "TraceDecoder_decode_token count_steps trace_decoder_off grid_store [1, 2] grid_state
     (Some [[9], [9]])
   = Inr (grid_store @ [Layers [[[0], [0]], [[0], [0]]], Layers [[[0], [0]], [[0], [0]]]],
          \<lparr> td_field = 0, td_h = 3, td_c = 4 \<rparr>, [[1, 9], [2, 9]])
   \<and> get_rows (grid_store @ [Layers [[[0], [0]], [[0], [0]]],
                             Layers [[[0], [0]], [[0], [0]]]]) 0 = Some [5, 7]
   \<and> id_to_action 2 = Some ''move'' \<and> count_steps ''move'' 7 = 8"
  using decode_token_without_grid_encoder
  by (simp add: grid_store_def get_rows_def id_to_action_def id_to_action_items_def
      count_steps_def)

theorem decode_token_store_frame_witness:
  "TraceDecoder_decode_token count_steps trace_decoder_on grid_store [0, 1] grid_state
     (Some [[9], [9]])
   = Inr (grid_store @ [Rows [5, 7], Layers [[[0], [0]], [[0], [0]]],
                        Layers [[[0], [0]], [[0], [0]]]],
          \<lparr> td_field = 3, td_h = 4, td_c = 5 \<rparr>, [[0, 5, 9], [1, 7, 9]])
   \<and> take (length grid_store)
        (grid_store @ [Rows [5, 7], Layers [[[0], [0]], [[0], [0]]],
                        Layers [[[0], [0]], [[0], [0]]]]) = grid_store
   \<and> td_field \<lparr> td_field = 3, td_h = 4, td_c = 5 \<rparr> = length grid_store
   \<and> td_field grid_state < length grid_store"
proof -
  have "grid_encoder trace_decoder_on \<noteq> None" by (simp add: trace_decoder_on_def)
  with decode_token_store_frame [THEN mp, OF decode_token_markers_with_grid_encoder]
    decode_token_markers_with_grid_encoder
  show ?thesis by blast
qed

text \<open>
  Without a grid encoder the returned state's field is the input state's field array
  itself (address 0), not a copy.
\<close>

theorem field_shared_counterexample:
  "TraceDecoder_decode_token count_steps trace_decoder_off grid_store [1, 2] grid_state
     (Some [[9], [9]])
   = Inr (grid_store @ [Layers [[[0], [0]], [[0], [0]]], Layers [[[0], [0]], [[0], [0]]]],
          \<lparr> td_field = 0, td_h = 3, td_c = 4 \<rparr>, [[1, 9], [2, 9]])
   \<and> td_field \<lparr> td_field = 0, td_h = 3, td_c = 4 \<rparr> = td_field grid_state
   \<and> grid_encoder trace_decoder_off = None"
  using decode_token_without_grid_encoder
  by (simp add: grid_state_def trace_decoder_off_def)

section \<open>Shapes along a decoding run\<close>

lemma view_beams_concat: "view_beams B xs = Inr v \<Longrightarrow> concat v = xs"
  by (auto simp: view_beams_def concat_unflatten sum_list_replicate split: if_splits)

lemma py_index_in_set: "py_index xs i = Inr x \<Longrightarrow> x \<in> set xs"
  by (auto simp: py_index_def Let_def split: if_splits)

lemma index_pair_in_set: "index_pair v p = Inr x \<Longrightarrow> x \<in> set (concat v)"
  by (auto simp: index_pair_def split: sum.splits dest!: py_index_in_set)

lemma select_rows_props:
  assumes "select_rows B idx xs = Inr ys"
  shows "length ys = length idx \<and> set ys \<subseteq> set xs"
proof -
  from assms obtain v where v: "view_beams B xs = Inr v"
    and t: "traverse (index_pair v) idx = Inr ys"
    by (auto simp: select_rows_def split: sum.splits)
  from traverse_Inr [OF t] have l: "list_all2 (\<lambda>p y. index_pair v p = Inr y) idx ys" .
  then have len: "length ys = length idx" by (simp add: list_all2_lengthD)
  have "y \<in> set xs" if "y \<in> set ys" for y
  proof -
    from that obtain j where "j < length ys" "ys ! j = y" by (auto simp: in_set_conv_nth)
    with l have "index_pair v (idx ! j) = Inr y" by (auto simp: list_all2_conv_all_nth)
    from index_pair_in_set [OF this] view_beams_concat [OF v] show ?thesis by simp
  qed
  with len show ?thesis by blast
qed

lemma select_rows_ok:
  "select_rows B idx xs = Inr ys \<Longrightarrow> rows_ok n p xs \<Longrightarrow> rows_ok (length idx) p ys"
  using select_rows_props [of B idx xs ys] by (auto simp: rows_ok_def)

lemma select_layers_ok:
  assumes "select_layers B idx v = Inr v'" and "\<forall>l \<in> set v. rows_ok n p l"
  shows "length v' = 2 \<and> (\<forall>l \<in> set v'. rows_ok (length idx) p l)"
proof -
  from assms(1) have two: "length v = 2" and t: "traverse (select_rows B idx) v = Inr v'"
    by (auto simp: select_layers_def split: if_splits)
  from traverse_Inr [OF t] have l: "list_all2 (\<lambda>x y. select_rows B idx x = Inr y) v v'" .
  then have len: "length v' = 2" using two by (simp add: list_all2_lengthD)
  have "rows_ok (length idx) p y" if "y \<in> set v'" for y
  proof -
    from that obtain j where j: "j < length v'" "v' ! j = y" by (auto simp: in_set_conv_nth)
    with l have s: "select_rows B idx (v ! j) = Inr y" and "j < length v"
      by (auto simp: list_all2_conv_all_nth)
    then have "rows_ok n p (v ! j)" using assms(2) by simp
    from select_rows_ok [OF s this] show ?thesis .
  qed
  with len show ?thesis by blast
qed

lemma select_preserves:
  assumes "State_select_for_beams B idx s = Inr s'" and "state_ok n s"
  shows "state_ok (length idx) s' \<and> pairs_per_example s' = pairs_per_example s"
proof -
  from assms(1) obtain ctx' h' c' where
    c: "(case st_context s of None \<Rightarrow> Inr None
          | Some ctx \<Rightarrow> (case select_rows B idx ctx of Inl e \<Rightarrow> Inl e | Inr r \<Rightarrow> Inr (Some r)))
        = Inr ctx'"
    and h: "select_layers B idx (st_h s) = Inr h'"
    and cc: "select_layers B idx (st_c s) = Inr c'"
    and s': "s' = \<lparr> pairs_per_example = pairs_per_example s, st_context = ctx',
                st_h = h', st_c = c' \<rparr>"
    by (auto simp: State_select_for_beams_def split: sum.splits)
  have ctx: "\<forall>x. ctx' = Some x \<longrightarrow> rows_ok (length idx) (pairs_per_example s) x"
    using c assms(2)
    by (auto simp: state_ok_def split: option.splits sum.splits dest: select_rows_ok)
  from assms(2) have hs: "\<forall>l \<in> set (st_h s). rows_ok n (pairs_per_example s) l"
    and cs: "\<forall>l \<in> set (st_c s). rows_ok n (pairs_per_example s) l"
    by (simp_all add: state_ok_def)
  from select_layers_ok [OF h hs] select_layers_ok [OF cc cs] ctx s'
  show ?thesis by (simp add: state_ok_def)
qed

lemma rows_ok_take: "rows_ok n p t \<Longrightarrow> rows_ok (min k n) p (take k t)"
  by (auto simp: rows_ok_def dest: in_set_takeD)

lemma truncate_preserves:
  assumes "State_truncate k s = Inr s'" and "state_ok n s"
  shows "state_ok (min k n) s' \<and> pairs_per_example s' = pairs_per_example s"
proof -
  from assms(1) obtain ctx where c: "st_context s = Some ctx"
    and s': "s' = \<lparr> pairs_per_example = pairs_per_example s, st_context = Some (take k ctx),
                st_h = map (take k) (st_h s), st_c = map (take k) (st_c s) \<rparr>"
    by (auto simp: State_truncate_def split: option.splits)
  from assms(2) c have "rows_ok n (pairs_per_example s) ctx"
    and "\<forall>l \<in> set (st_h s). rows_ok n (pairs_per_example s) l"
    and "\<forall>l \<in> set (st_c s). rows_ok n (pairs_per_example s) l"
    and "length (st_h s) = 2" "length (st_c s) = 2"
    by (simp_all add: state_ok_def)
  with s' show ?thesis by (simp add: state_ok_def rows_ok_take)
qed

lemma init_state_ok: "state_ok B (init_state d B p) \<and> pairs_per_example (init_state d B p) = p"
  by (auto simp: init_state_def state_ok_def rows_ok_def lstm_init_def)

lemma cat_dim2_shape: "cat_dim2 a b = Inr r \<Longrightarrow> map length r = map length a"
proof -
  assume "cat_dim2 a b = Inr r"
  then have eq: "map length a = map length b" and r: "r = map2 (map2 (@)) a b"
    by (auto simp: cat_dim2_def split: if_splits)
  from eq have len: "length a = length b" by (metis length_map)
  show ?thesis
  proof (rule nth_equalityI)
    show "length (map length r) = length (map length a)" using r len by simp
  next
    fix i assume "i < length (map length r)"
    then have i: "i < length a" "i < length b" using r len by simp_all
    from eq i have "length (a ! i) = length (b ! i)" by (metis nth_map)
    with i r show "map length r ! i = map length a ! i" by simp
  qed
qed

lemma maybe_concat2_shape: "maybe_concat2 a ob = Inr r \<Longrightarrow> map length r = map length a"
  by (auto simp: maybe_concat2_def split: option.splits dest: cat_dim2_shape)

lemma lstm_forward_shape:
  assumes "lstm_forward cell xs hs cs = Inr (out, hf, cf)"
  shows "length out = length xs \<and> length hs = 2 \<and> length cs = 2
         \<and> length hf = 2 \<and> length cf = 2
         \<and> (\<forall>l \<in> set hs. length l = length xs) \<and> (\<forall>l \<in> set cs. length l = length xs)
         \<and> (\<forall>l \<in> set hf. length l = length xs) \<and> (\<forall>l \<in> set cf. length l = length xs)"
  using assms
  by (auto simp: lstm_forward_def Let_def split: list.splits if_splits)

lemma rows_ok_concat: "rows_ok n p t \<Longrightarrow> length (concat t) = n * p"
proof -
  assume a: "rows_ok n p t"
  then have "map length t = replicate n p"
    by (auto simp: rows_ok_def intro!: nth_equalityI)
  then show ?thesis by (simp add: length_concat sum_list_replicate)
qed

lemma view_as_rows_ok:
  assumes "rows_ok n p old" and "length flat = n * p"
  shows "rows_ok n p (unflatten (map length old) flat)"
proof -
  from assms(1) have m: "map length old = replicate n p"
    by (auto simp: rows_ok_def intro!: nth_equalityI)
  have "length flat = sum_list (map length old)" using assms(2) m by (simp add: sum_list_replicate)
  from map_length_unflatten [OF this] have "map length (unflatten (map length old) flat) = replicate n p"
    using m by simp
  then have e: "map length (unflatten (map length old) flat) = replicate n p" .
  have l: "length (unflatten (map length old) flat) = n"
    using e by (metis length_map length_replicate)
  have "length r = p" if "r \<in> set (unflatten (map length old) flat)" for r
  proof -
    from that have "length r \<in> set (map length (unflatten (map length old) flat))" by simp
    with e show ?thesis by simp
  qed
  with l show ?thesis by (simp add: rows_ok_def)
qed


lemma view_groups_rows_ok:
  assumes "view_groups p xs = Inr g"
  shows "0 < p \<and> rows_ok (length xs div p) p g"
proof -
  from assms have p: "0 < p" and d: "length xs mod p = 0"
    and g: "g = unflatten (replicate (length xs div p) p) xs"
    by (auto simp: view_groups_def split: if_splits)
  have "length xs = sum_list (replicate (length xs div p) p)"
    using d by (auto simp: sum_list_replicate)
  from map_length_unflatten [OF this] g
  have e: "map length g = replicate (length xs div p) p" by simp
  have l: "length g = length xs div p" using e by (metis length_map length_replicate)
  have "length r = p" if "r \<in> set g" for r
  proof -
    from that have "length r \<in> set (map length g)" by simp
    with e show ?thesis by simp
  qed
  with l p show ?thesis by (simp add: rows_ok_def)
qed

lemma attend_trace_length:
  "attend_trace d att out tr = Inr (Some nc) \<Longrightarrow> length nc = length out"
  by (auto simp: attend_trace_def split: option.splits if_splits)

lemma pool_pairs_positive: "pool_pairs p nc out = Inr pooled \<Longrightarrow> 0 < p"
  by (auto simp: pool_pairs_def view_groups_def split: if_splits sum.splits)

lemma step_preserves:
  assumes r: "compute_next_token_logits d M s mem
                (map (replicate (pairs_per_example s)) xs) = Inr (s', lg)"
    and ok: "state_ok n s"
  shows "state_ok (length xs) s' \<and> pairs_per_example s' = pairs_per_example s"
proof -
  let ?p = "pairs_per_example s"
  let ?N = "length xs"
  from r obtain x1 dec_input3 dec_output h_flat c_flat new_context pooled ctx' where
    c1: "maybe_concat2 (map (replicate ?p) xs) (mem_io mem) = Inr x1"
    and c2: "maybe_concat2 x1 (st_context s) = Inr dec_input3"
    and l: "lstm_forward (decoder_cell M) (concat dec_input3)
              (map concat (st_h s)) (map concat (st_c s)) = Inr (dec_output, h_flat, c_flat)"
    and a: "attend_trace d (trace_attention M) dec_output (mem_trace mem) = Inr new_context"
    and pl: "pool_pairs ?p new_context dec_output = Inr pooled"
    and cx: "(case new_context of None \<Rightarrow> Inr None
              | Some nc \<Rightarrow> (case view_groups ?p nc of Inl e \<Rightarrow> Inl e | Inr g \<Rightarrow> Inr (Some g)))
             = Inr ctx'"
    and s': "s' = \<lparr> pairs_per_example = ?p, st_context = ctx',
               st_h = map2 (\<lambda>old flat. unflatten (map length old) flat) (st_h s) h_flat,
               st_c = map2 (\<lambda>old flat. unflatten (map length old) flat) (st_c s) c_flat \<rparr>"
    by (auto simp: compute_next_token_logits_def Let_def split: sum.splits prod.splits)
  have pos: "0 < ?p" using pl by (rule pool_pairs_positive)
  have "map length dec_input3 = map length (map (replicate ?p) xs)"
    using maybe_concat2_shape [OF c2] maybe_concat2_shape [OF c1] by simp
  then have "map length dec_input3 = replicate ?N ?p"
    by (simp add: comp_def map_replicate_const)
  then have flat: "length (concat dec_input3) = ?N * ?p"
    by (simp add: length_concat sum_list_replicate)
  note sh = lstm_forward_shape [OF l]
  have out: "length dec_output = ?N * ?p" using sh flat by simp
  from ok have hs: "\<forall>l \<in> set (st_h s). rows_ok n ?p l" and cs: "\<forall>l \<in> set (st_c s). rows_ok n ?p l"
    and h2: "length (st_h s) = 2" and c2': "length (st_c s) = 2"
    by (simp_all add: state_ok_def)
  have nN: "n = ?N"
  proof -
    from h2 obtain l0 where l0: "l0 \<in> set (st_h s)" by (cases "st_h s") auto
    then have "length (concat l0) = ?N * ?p" using sh flat by simp
    moreover have "length (concat l0) = n * ?p" using hs l0 by (simp add: rows_ok_concat)
    ultimately show ?thesis using pos by simp
  qed
  have layer: "rows_ok ?N ?p y"
    if y: "y \<in> set (map2 (\<lambda>old flat. unflatten (map length old) flat) olds flats)"
      and o: "\<forall>l \<in> set olds. rows_ok n ?p l" and f: "\<forall>l \<in> set flats. length l = ?N * ?p"
    for y olds flats
  proof -
    from y obtain old fl where "old \<in> set olds" "fl \<in> set flats"
      and "y = unflatten (map length old) fl"
      by (auto dest: set_zip_leftD set_zip_rightD)
    with o f nN show ?thesis by (simp add: view_as_rows_ok)
  qed
  have hf: "\<forall>l \<in> set h_flat. length l = ?N * ?p" and cf: "\<forall>l \<in> set c_flat. length l = ?N * ?p"
    and hf2: "length h_flat = 2" and cf2: "length c_flat = 2"
    using sh flat by simp_all
  have ctx: "\<forall>g. ctx' = Some g \<longrightarrow> rows_ok ?N ?p g"
  proof (intro allI impI)
    fix g assume g: "ctx' = Some g"
    with cx obtain nc where nc: "new_context = Some nc" and v: "view_groups ?p nc = Inr g"
      by (auto split: option.splits sum.splits)
    from attend_trace_length [OF a [unfolded nc]] out have "length nc = ?N * ?p" by simp
    with view_groups_rows_ok [OF v] pos show "rows_ok ?N ?p g" by simp
  qed
  show ?thesis
    using s' ctx layer [OF _ hs hf] layer [OF _ cs cf] h2 c2' hf2 cf2
    by (simp add: state_ok_def)
qed

lemma decode_token_preserves:
  assumes "decode_token d M token s mem = Inr (s', lg)" and "state_ok n s"
  shows "state_ok (length token) s' \<and> pairs_per_example s' = pairs_per_example s"
proof -
  have e: "map (\<lambda>t. replicate (pairs_per_example s) (code_embed M t)) token
        = map (replicate (pairs_per_example s)) (map (code_embed M) token)"
    by simp
  from assms(1) have "compute_next_token_logits d M s mem
      (map (\<lambda>t. replicate (pairs_per_example s) (code_embed M t)) token) = Inr (s', lg)"
    by (simp only: decode_token_def)
  then have "compute_next_token_logits d M s mem
      (map (replicate (pairs_per_example s)) (map (code_embed M) token)) = Inr (s', lg)"
    by (simp only: e)
  from step_preserves [OF this assms(2)] show ?thesis by simp
qed

text \<open>
  Claim C7. Every state produced by \<open>init_state\<close>, \<open>truncate\<close>,
  \<open>select_for_beams\<close> or a decoding step has the same active-batch dimension in the
  context (when there is one), in \<open>h\<close> and in \<open>c\<close>, equal to the batch size of the
  decoding at that point, and carries the \<open>pairs_per_example\<close> it started with.
\<close>

theorem state_batch_invariant:
  "reachable d M p n s \<Longrightarrow> state_ok n s \<and> pairs_per_example s = p"
proof (induction rule: reachable.induct)
  case (reach_init batch_size)
  show ?case by (rule init_state_ok)
next
  case (reach_truncate n s k s')
  with truncate_preserves [of k s s' n] show ?case by simp
next
  case (reach_select n s batch_size indices s')
  with select_preserves [of batch_size indices s s' n] show ?case by simp
next
  case (reach_decode_token n s token memory s' logits)
  with decode_token_preserves [of d M token s memory s' logits n] show ?case by simp
next
  case (reach_forward_step n s memory dec_data_slice s' logits)
  with step_preserves [of d M s memory dec_data_slice s' logits n] show ?case by simp
qed

theorem state_batch_invariant_witness:
  "\<exists>s'. State_truncate 1 (init_state decoder_with_trace 2 3 :: int vec list State) = Inr s'
        \<and> state_ok 1 s' \<and> pairs_per_example s' = 3"
proof -
  obtain s' where t: "State_truncate 1 (init_state decoder_with_trace 2 3 :: int vec list State)
                      = Inr s'"
    by (simp add: State_truncate_def init_state_def decoder_with_trace_def)
  have "reachable decoder_with_trace example_modules 3 (min 1 2) s'"
    by (rule reach_truncate [OF reach_init t])
  from state_batch_invariant [OF this] t show ?thesis by simp
qed

section \<open>Max-pooling over the pairs of an example\<close>

lemma max_over_pairs_length:
  "g \<noteq> [] \<Longrightarrow> \<forall>v \<in> set g. length v = D \<Longrightarrow> length (max_over_pairs g) = D"
  by (induction g rule: max_over_pairs.induct) auto

lemma max_over_pairs_nth:
  "g \<noteq> [] \<Longrightarrow> \<forall>v \<in> set g. length v = D \<Longrightarrow> i < D
   \<Longrightarrow> max_over_pairs g ! i = Max ((\<lambda>v. v ! i) ` set g)"
proof (induction g rule: max_over_pairs.induct)
  case 1
  then show ?case by simp
next
  case (2 v)
  then show ?case by simp
next
  case (3 v w ws)
  have len: "length (max_over_pairs (w # ws)) = D"
    using 3 by (intro max_over_pairs_length) auto
  have ih: "max_over_pairs (w # ws) ! i = Max ((\<lambda>v. v ! i) ` set (w # ws))"
    using 3 by auto
  have "max_over_pairs (v # w # ws) ! i = max (v ! i) (max_over_pairs (w # ws) ! i)"
    using 3 len by simp
  also have "\<dots> = Max ((\<lambda>v. v ! i) ` set (v # w # ws))"
    by (simp add: ih del: max_over_pairs.simps)
  finally show ?case .
qed

lemma pool_pairs_zero: "pool_pairs 0 nc out = Inl RuntimeError"
  by (simp add: pool_pairs_def view_groups_def)

lemma pool_pairs_one: "pool_pairs (Suc 0) nc out = Inr (emb_for_logits nc out)"
  by (simp add: pool_pairs_def view_groups_def unflatten_singletons comp_def)

lemma pool_pairs_rows:
  assumes "pool_pairs p nc out = Inr pooled"
  shows "0 < p \<and> length (emb_for_logits nc out) = length pooled * p
         \<and> (\<forall>b < length pooled.
              pooled ! b = max_over_pairs (take p (drop (b * p) (emb_for_logits nc out))))"
  using assms
  by (auto simp: pool_pairs_def view_groups_def length_unflatten unflatten_replicate_nth
      split: if_splits)

lemma compute_logits_pooled:
  assumes "compute_next_token_logits d M state memory emb = Inr (s', lg)"
  shows "\<exists>x1 dec_input3 dec_output h_flat c_flat new_context pooled.
           maybe_concat2 emb (mem_io memory) = Inr x1
           \<and> maybe_concat2 x1 (st_context state) = Inr dec_input3
           \<and> lstm_forward (decoder_cell M) (concat dec_input3)
                (map concat (st_h state)) (map concat (st_c state))
              = Inr (dec_output, h_flat, c_flat)
           \<and> attend_trace d (trace_attention M) dec_output (mem_trace memory)
              = Inr new_context
           \<and> pool_pairs (pairs_per_example state) new_context dec_output = Inr pooled
           \<and> lg = map (out_linear M) pooled"
  using assms
  by (auto simp: compute_next_token_logits_def Let_def split: sum.splits prod.splits)

lemma attend_trace_None:
  "attend_trace d att out tr = Inr nc \<Longrightarrow> (nc = None) = (tr = None)"
  by (auto simp: attend_trace_def split: option.splits if_splits)

text \<open>
  Claim C6, as the code has it. In a step that returns, the scores are the projection
  of the pooled vectors; the pooled vector of beam \<open>b\<close> is the elementwise maximum
  over the \<open>pairs_per_example\<close> rows of that beam, each row being the new attention
  context (present exactly when there is trace memory) followed by the recurrent output;
  with one pair the pooling returns the rows unchanged. With zero pairs the pooling is
  not the identity: the view fails and the step raises.
\<close>

theorem max_pooling_over_pairs:
  "(compute_next_token_logits d M state memory emb = Inr (s', lg) \<longrightarrow>
      (\<exists>dec_input3 dec_output h_flat c_flat new_context pooled.
          lstm_forward (decoder_cell M) (concat dec_input3)
                (map concat (st_h state)) (map concat (st_c state))
              = Inr (dec_output, h_flat, c_flat)
          \<and> attend_trace d (trace_attention M) dec_output (mem_trace memory)
              = Inr new_context
          \<and> (new_context = None) = (mem_trace memory = None)
          \<and> lg = map (out_linear M) pooled
          \<and> 0 < pairs_per_example state
          \<and> length (emb_for_logits new_context dec_output)
              = length pooled * pairs_per_example state
          \<and> (\<forall>b < length pooled.
                pooled ! b =
                  max_over_pairs (take (pairs_per_example state)
                    (drop (b * pairs_per_example state)
                       (emb_for_logits new_context dec_output))))
          \<and> (pairs_per_example state = 1 \<longrightarrow>
                pooled = emb_for_logits new_context dec_output)))
   \<and> emb_for_logits None out = out
   \<and> emb_for_logits (Some nc) out = map2 (@) nc out
   \<and> (g \<noteq> [] \<and> (\<forall>v \<in> set g. length v = D) \<and> i < D \<longrightarrow>
        max_over_pairs g ! i = Max ((\<lambda>v. v ! i) ` set g))
   \<and> pool_pairs 1 nc' out' = Inr (emb_for_logits nc' out')
   \<and> pool_pairs 0 nc' out' = Inl RuntimeError"
proof -
  have step: "\<exists>dec_input3 dec_output h_flat c_flat new_context pooled.
          lstm_forward (decoder_cell M) (concat dec_input3)
                (map concat (st_h state)) (map concat (st_c state))
              = Inr (dec_output, h_flat, c_flat)
          \<and> attend_trace d (trace_attention M) dec_output (mem_trace memory)
              = Inr new_context
          \<and> (new_context = None) = (mem_trace memory = None)
          \<and> lg = map (out_linear M) pooled
          \<and> 0 < pairs_per_example state
          \<and> length (emb_for_logits new_context dec_output)
              = length pooled * pairs_per_example state
          \<and> (\<forall>b < length pooled.
                pooled ! b =
                  max_over_pairs (take (pairs_per_example state)
                    (drop (b * pairs_per_example state)
                       (emb_for_logits new_context dec_output))))
          \<and> (pairs_per_example state = 1 \<longrightarrow>
                pooled = emb_for_logits new_context dec_output)"
    if r: "compute_next_token_logits d M state memory emb = Inr (s', lg)"
  proof -
    from compute_logits_pooled [OF r]
    obtain x1 dec_input3 dec_output h_flat c_flat new_context pooled where
      l: "lstm_forward (decoder_cell M) (concat dec_input3)
                (map concat (st_h state)) (map concat (st_c state))
              = Inr (dec_output, h_flat, c_flat)"
      and a: "attend_trace d (trace_attention M) dec_output (mem_trace memory)
              = Inr new_context"
      and p: "pool_pairs (pairs_per_example state) new_context dec_output = Inr pooled"
      and lg: "lg = map (out_linear M) pooled"
      by blast
    have one: "pairs_per_example state = 1 \<longrightarrow>
                pooled = emb_for_logits new_context dec_output"
      using p by (auto simp: pool_pairs_one)
    note rows = pool_pairs_rows [OF p]
    show ?thesis
    proof (intro exI conjI)
      show "lstm_forward (decoder_cell M) (concat dec_input3)
                (map concat (st_h state)) (map concat (st_c state))
              = Inr (dec_output, h_flat, c_flat)" by (rule l)
      show "attend_trace d (trace_attention M) dec_output (mem_trace memory)
              = Inr new_context" by (rule a)
      show "(new_context = None) = (mem_trace memory = None)"
        by (rule attend_trace_None [OF a])
      show "lg = map (out_linear M) pooled" by (rule lg)
      show "0 < pairs_per_example state" using rows by blast
      show "length (emb_for_logits new_context dec_output)
              = length pooled * pairs_per_example state" using rows by blast
      show "\<forall>b < length pooled.
                pooled ! b =
                  max_over_pairs (take (pairs_per_example state)
                    (drop (b * pairs_per_example state)
                       (emb_for_logits new_context dec_output)))" using rows by blast
      show "pairs_per_example state = 1 \<longrightarrow>
                pooled = emb_for_logits new_context dec_output" by (rule one)
    qed
  qed
  have elementwise: "max_over_pairs g ! i = Max ((\<lambda>v. v ! i) ` set g)"
    if "g \<noteq> []" "\<forall>v \<in> set g. length v = D" "i < D"
    using that by (rule max_over_pairs_nth)
  have e1: "emb_for_logits None out = out" by (simp add: emb_for_logits_def)
  have e2: "emb_for_logits (Some nc) out = map2 (@) nc out" by (simp add: emb_for_logits_def)
  have p1: "pool_pairs 1 nc' out' = Inr (emb_for_logits nc' out')"
    using pool_pairs_one [of nc' out'] by simp
  from step elementwise e1 e2 p1 pool_pairs_zero [of nc' out'] show ?thesis
    by (intro conjI impI) blast+
qed

lemma two_pair_step:
  "compute_next_token_logits decoder_without_trace example_modules two_pair_state
          no_memory [[[1, 5], [3, 2]]] = Inr (two_pair_state, [[3, 5]])"
  by (simp add: compute_next_token_logits_def decoder_without_trace_def example_modules_def
      two_pair_state_def no_memory_def maybe_concat2_def lstm_forward_def attend_trace_def
      pool_pairs_def emb_for_logits_def view_groups_def Let_def)

theorem max_pooling_over_pairs_witness:
  "compute_next_token_logits decoder_without_trace example_modules two_pair_state
          no_memory [[[1, 5], [3, 2]]] = Inr (two_pair_state, [[3, 5]])
   \<and> (\<exists>dec_output pooled.
         [[3, 5]] = map (out_linear example_modules) pooled
         \<and> (\<forall>b < length pooled.
               pooled ! b = max_over_pairs (take 2 (drop (b * 2) dec_output))))
   \<and> max_over_pairs [[1, 5], [3, 2 :: int]] ! 0 = Max ((\<lambda>v. v ! 0) ` set [[1, 5], [3, 2]])
   \<and> pool_pairs 1 None [[1, 5 :: int]] = Inr [[1, 5]]"
proof -
  note inst = max_pooling_over_pairs
    [where d = decoder_without_trace and M = example_modules and state = two_pair_state
       and memory = no_memory and emb = "[[[1, 5], [3, 2]]]" and s' = two_pair_state
       and lg = "[[3, 5]]" and g = "[[1, 5], [3, 2]]" and D = 2 and i = 0
       and nc' = None and out' = "[[1, 5]]"]
  from inst [THEN conjunct1, THEN mp, OF two_pair_step] obtain dec_input3 dec_output h_flat c_flat new_context pooled
    where a: "attend_trace decoder_without_trace (trace_attention example_modules) dec_output
              (mem_trace no_memory) = Inr new_context"
      and n: "(new_context = None) = (mem_trace no_memory = None)"
      and l: "[[3, 5]] = map (out_linear example_modules) pooled"
      and r: "\<forall>b < length pooled.
                pooled ! b =
                  max_over_pairs (take (pairs_per_example two_pair_state)
                    (drop (b * pairs_per_example two_pair_state)
                       (emb_for_logits new_context dec_output)))"
    by (elim exE conjE)
  from n have "new_context = None" by (simp add: no_memory_def)
  with r have r': "\<forall>b < length pooled.
               pooled ! b = max_over_pairs (take 2 (drop (b * 2) dec_output))"
    by (simp add: emb_for_logits_def two_pair_state_def)
  have m: "max_over_pairs [[1, 5], [3, 2 :: int]] ! 0
           = Max ((\<lambda>v. v ! 0) ` set [[1, 5], [3, 2]])"
    using inst [THEN conjunct2, THEN conjunct2, THEN conjunct2, THEN conjunct1] by simp
  have p: "pool_pairs 1 None [[1, 5 :: int]] = Inr [[1, 5]]"
    using inst [THEN conjunct2, THEN conjunct2, THEN conjunct2, THEN conjunct2, THEN conjunct1]
    by (simp add: emb_for_logits_def)
  have e: "\<exists>dec_output pooled.
         [[3, 5]] = map (out_linear example_modules) pooled
         \<and> (\<forall>b < length pooled.
               pooled ! b = max_over_pairs (take 2 (drop (b * 2) dec_output)))"
    by (rule exI [of _ dec_output], rule exI [of _ pooled], rule conjI [OF l r'])
  from two_pair_step e m p show ?thesis by (intro conjI)
qed

text \<open>
  With \<open>pairs_per_example = 0\<close> the pooling is no identity: on the empty tensor it
  raises, and so does the whole step from the initial state of one beam with no pairs.
\<close>

theorem zero_pairs_pooling_counterexample:
  "pool_pairs 0 None ([] :: int vec list) \<noteq> Inr (emb_for_logits None [])
   \<and> compute_next_token_logits decoder_without_trace example_modules
       (init_state decoder_without_trace 1 0) no_memory [[]] = Inl RuntimeError"
  by (simp add: compute_next_token_logits_def decoder_without_trace_def example_modules_def
      init_state_def lstm_init_def numeral_2_eq_2 no_memory_def maybe_concat2_def
      lstm_forward_def attend_trace_def pool_pairs_def emb_for_logits_def view_groups_def Let_def)

section \<open>Teacher-forced decoding\<close>


lemma step_keeps_pairs:
  "compute_next_token_logits d M s mem emb = Inr (s', lg)
   \<Longrightarrow> pairs_per_example s' = pairs_per_example s"
  by (auto simp: compute_next_token_logits_def Let_def split: sum.splits prod.splits)

lemma truncate_keeps_pairs:
  "State_truncate k s = Inr s' \<Longrightarrow> pairs_per_example s' = pairs_per_example s"
  by (auto simp: State_truncate_def split: option.splits)

lemma emb_for_logits_length:
  "attend_trace d att out tr = Inr nc \<Longrightarrow> length (emb_for_logits nc out) = length out"
  by (cases nc) (auto simp: emb_for_logits_def dest: attend_trace_length)

lemma step_logits_rows:
  assumes r: "compute_next_token_logits d M s mem
                (map (replicate (pairs_per_example s)) xs) = Inr (s', lg)"
  shows "length lg = length xs"
proof -
  let ?p = "pairs_per_example s"
  from compute_logits_pooled [OF r]
  obtain x1 dec_input3 dec_output h_flat c_flat new_context pooled where
    c1: "maybe_concat2 (map (replicate ?p) xs) (mem_io mem) = Inr x1"
    and c2: "maybe_concat2 x1 (st_context s) = Inr dec_input3"
    and l: "lstm_forward (decoder_cell M) (concat dec_input3)
              (map concat (st_h s)) (map concat (st_c s)) = Inr (dec_output, h_flat, c_flat)"
    and a: "attend_trace d (trace_attention M) dec_output (mem_trace mem) = Inr new_context"
    and pl: "pool_pairs ?p new_context dec_output = Inr pooled"
    and lg: "lg = map (out_linear M) pooled"
    by blast
  have "map length dec_input3 = map length (map (replicate ?p) xs)"
    using maybe_concat2_shape [OF c2] maybe_concat2_shape [OF c1] by simp
  then have "map length dec_input3 = replicate (length xs) ?p"
    by (simp add: comp_def map_replicate_const)
  then have "length (concat dec_input3) = length xs * ?p"
    by (simp add: length_concat sum_list_replicate)
  with lstm_forward_shape [OF l] have "length dec_output = length xs * ?p" by simp
  with emb_for_logits_length [OF a] pool_pairs_rows [OF pl]
  have "0 < ?p" "length pooled * ?p = length xs * ?p" by simp_all
  then show ?thesis using lg by simp
qed

lemma forward_loop_rows:
  assumes "forward_loop d M p io trace data bss offset last_bs state memory = Inr ls"
    and "pairs_per_example state = p" and "offset + sum_list bss \<le> length data"
  shows "map length ls = bss"
  using assms
proof (induction bss arbitrary: offset last_bs state memory ls)
  case Nil
  then show ?case by simp
next
  case (Cons bs rest)
  let ?slice = "take bs (drop offset data)"
  have len: "length ?slice = bs" using Cons.prems(3) by simp
  obtain state1 memory1 where pre:
    "(if bs < last_bs
      then (let memory' = \<lparr> mem_io = map_option (take bs) io,
                             mem_trace = map_option (take bs) trace \<rparr>
            in case State_truncate bs state of
                 Inl e \<Rightarrow> Inl e
               | Inr state' \<Rightarrow> Inr (state', memory'))
      else Inr (state, memory)) = Inr (state1, memory1)"
    using Cons.prems(1) by (auto simp: Let_def split: sum.splits prod.splits)
  then have p1: "pairs_per_example state1 = p"
    using Cons.prems(2)
    by (auto simp: Let_def split: if_splits sum.splits dest: truncate_keeps_pairs)
  obtain state2 lg where st: "compute_next_token_logits d M state1 memory1
        (map (replicate p) ?slice) = Inr (state2, lg)"
    using Cons.prems(1) pre by (auto simp: Let_def split: sum.splits prod.splits)
  obtain ls' where rec: "forward_loop d M p io trace data rest (offset + bs) bs state2 memory1
                          = Inr ls'"
    and ls: "ls = lg # ls'"
    using Cons.prems(1) pre st by (auto simp: Let_def split: sum.splits prod.splits)
  have p2: "pairs_per_example state2 = p" using step_keeps_pairs [OF st] p1 by simp
  have "offset + bs + sum_list rest \<le> length data" using Cons.prems(3) by simp
  from Cons.IH [OF rec p2 this] have "map length ls' = rest" .
  moreover have "length lg = bs"
    using step_logits_rows [of d M state1 memory1 ?slice state2 lg] st p1 len by simp
  ultimately show ?case using ls by simp
qed

lemma forward_rows_when_returns:
  assumes "forward d M batch_size p io_embed trace_memory input_code output_code
           = Inr (logits, labels)"
    and "sum_list (ps_batch_sizes input_code) \<le> length (ps_data input_code)"
  shows "labels = ps_data output_code
         \<and> length logits = sum_list (ps_batch_sizes input_code)
         \<and> (\<exists>ls. logits = concat ls \<and> map length ls = ps_batch_sizes input_code)"
proof -
  from assms(1) obtain io trace ls state mem0 where
    fl: "forward_loop d M p io trace (map (code_embed M) (ps_data input_code))
           (ps_batch_sizes input_code) 0 0 (init_state d batch_size p) mem0 = Inr ls"
    and res: "logits = concat ls" "labels = ps_data output_code"
    by (auto simp: forward_def Let_def split: sum.splits if_splits)
  have "pairs_per_example (init_state d batch_size p) = p"
    by (simp add: init_state_def)
  from forward_loop_rows [OF fl] this assms(2)
  have m: "map length ls = ps_batch_sizes input_code" by simp
  then have "length (concat ls) = sum_list (ps_batch_sizes input_code)"
    by (simp add: length_concat)
  with res m show ?thesis by blast
qed

lemma rows_ok_shape: "rows_ok n p t \<Longrightarrow> map length t = replicate n p"
  by (auto simp: rows_ok_def intro!: nth_equalityI)

lemma cat_dim2_ok:
  "map length a = map length b \<Longrightarrow> \<exists>r. cat_dim2 a b = Inr r"
  by (simp add: cat_dim2_def)

lemma step_succeeds:
  assumes ok: "state_ok n s" and p: "0 < pairs_per_example s" and n: "length xs = n"
    and io: "\<forall>t. mem_io mem = Some t \<longrightarrow> rows_ok n (pairs_per_example s) t"
    and tr: "mem_trace mem = Some tm" "rows_ok n (pairs_per_example s) tm"
    and d: "use_trace_memory d"
  shows "\<exists>s' lg. compute_next_token_logits d M s mem
                    (map (replicate (pairs_per_example s)) xs) = Inr (s', lg)
                  \<and> st_context s' \<noteq> None"
proof -
  let ?p = "pairs_per_example s"
  let ?emb = "map (replicate ?p) xs"
  have se: "map length ?emb = replicate n ?p"
    using n by (simp add: comp_def map_replicate_const)
  obtain x1 where c1: "maybe_concat2 ?emb (mem_io mem) = Inr x1"
  proof (cases "mem_io mem")
    case None
    then show ?thesis using that by (simp add: maybe_concat2_def)
  next
    case (Some t)
    with io have "map length t = replicate n ?p" by (simp add: rows_ok_shape)
    with se Some that show ?thesis by (simp add: maybe_concat2_def cat_dim2_def)
  qed
  have s1: "map length x1 = replicate n ?p" using maybe_concat2_shape [OF c1] se by simp
  obtain x2 where c2: "maybe_concat2 x1 (st_context s) = Inr x2"
  proof (cases "st_context s")
    case None
    then show ?thesis using that by (simp add: maybe_concat2_def)
  next
    case (Some t)
    with ok have "map length t = replicate n ?p" by (simp add: state_ok_def rows_ok_shape)
    with s1 Some that show ?thesis by (simp add: maybe_concat2_def cat_dim2_def)
  qed
  have s2: "map length x2 = replicate n ?p" using maybe_concat2_shape [OF c2] s1 by simp
  then have fl: "length (concat x2) = n * ?p" by (simp add: length_concat sum_list_replicate)
  from ok obtain h0 h1 where h: "st_h s = [h0, h1]"
    by (auto simp: state_ok_def length_Suc_conv numeral_2_eq_2)
  from ok obtain c0 c1' where c: "st_c s = [c0, c1']"
    by (auto simp: state_ok_def length_Suc_conv numeral_2_eq_2)
  from ok h c have lens: "length (concat h0) = n * ?p" "length (concat h1) = n * ?p"
    "length (concat c0) = n * ?p" "length (concat c1') = n * ?p"
    by (simp_all add: state_ok_def rows_ok_concat)
  obtain dec_output h_flat c_flat where
    l: "lstm_forward (decoder_cell M) (concat x2) (map concat (st_h s)) (map concat (st_c s))
        = Inr (dec_output, h_flat, c_flat)"
    using h c lens fl by (simp add: lstm_forward_def Let_def)
  have lo: "length dec_output = n * ?p" using lstm_forward_shape [OF l] fl by simp
  have lt: "length (concat tm) = n * ?p" using tr(2) by (rule rows_ok_concat)
  obtain nc where a: "attend_trace d (trace_attention M) dec_output (mem_trace mem) = Inr (Some nc)"
    using tr(1) d lo lt by (simp add: attend_trace_def)
  have ln: "length nc = n * ?p" using attend_trace_length [OF a] lo by simp
  have le: "length (emb_for_logits (Some nc) dec_output) = n * ?p"
    using emb_for_logits_length [OF a] lo by simp
  obtain pooled where pl: "pool_pairs ?p (Some nc) dec_output = Inr pooled"
    using le p by (simp add: pool_pairs_def view_groups_def)
  obtain g where v: "view_groups ?p nc = Inr g"
    using ln p by (simp add: view_groups_def)
  show ?thesis
    using c1 c2 l a pl v
    by (simp add: compute_next_token_logits_def Let_def)
qed

lemma truncate_context:
  "State_truncate k s = Inr s' \<Longrightarrow> st_context s' \<noteq> None"
  by (auto simp: State_truncate_def split: option.splits)

lemma truncate_succeeds:
  "st_context s \<noteq> None \<Longrightarrow> \<exists>s'. State_truncate k s = Inr s'"
  by (auto simp: State_truncate_def split: option.splits)

lemma forward_loop_succeeds:
  assumes d: "use_trace_memory d" and p: "0 < p"
    and full_io: "\<forall>t. io = Some t \<longrightarrow> rows_ok B p t"
    and full_tr: "trace = Some tr" "rows_ok B p tr"
  shows "state_ok n state \<Longrightarrow> pairs_per_example state = p \<Longrightarrow> st_context state \<noteq> None
    \<Longrightarrow> \<forall>t. mem_io memory = Some t \<longrightarrow> rows_ok n p t
    \<Longrightarrow> mem_trace memory = Some tm \<Longrightarrow> rows_ok n p tm
    \<Longrightarrow> n \<le> B \<Longrightarrow> last_bs = 0 \<or> last_bs = n
    \<Longrightarrow> sorted_wrt (\<ge>) bss \<Longrightarrow> \<forall>bs \<in> set bss. bs \<le> n
    \<Longrightarrow> last_bs = 0 \<longrightarrow> bss = [] \<or> hd bss = n
    \<Longrightarrow> offset + sum_list bss \<le> length data
    \<Longrightarrow> \<exists>ls. forward_loop d M p io trace data bss offset last_bs state memory = Inr ls"
proof (induction bss arbitrary: n state memory tm last_bs offset)
  case Nil
  show ?case by simp
next
  case (Cons bs rest)
  let ?slice = "take bs (drop offset data)"
  have len: "length ?slice = bs" using Cons.prems(12) by simp
  have bsn: "bs \<le> n" using Cons.prems(10) by simp
  obtain state1 memory1 tm1 where pre:
    "(if bs < last_bs
      then (let memory' = \<lparr> mem_io = map_option (take bs) io,
                             mem_trace = map_option (take bs) trace \<rparr>
            in case State_truncate bs state of
                 Inl e \<Rightarrow> Inl e
               | Inr state' \<Rightarrow> Inr (state', memory'))
      else Inr (state, memory)) = Inr (state1, memory1)"
    and ok1: "state_ok bs state1" and p1: "pairs_per_example state1 = p"
    and c1: "st_context state1 \<noteq> None"
    and io1: "\<forall>t. mem_io memory1 = Some t \<longrightarrow> rows_ok bs p t"
    and tr1: "mem_trace memory1 = Some tm1" "rows_ok bs p tm1"
  proof (cases "bs < last_bs")
    case True
    from truncate_succeeds [OF Cons.prems(3)] obtain state' where
      t: "State_truncate bs state = Inr state'" by blast
    have "state_ok (min bs n) state'" "pairs_per_example state' = p"
      using truncate_preserves [OF t Cons.prems(1)] Cons.prems(2) by simp_all
    then have a: "state_ok bs state'" using bsn by (simp add: min_def)
    have b: "\<forall>t. map_option (take bs) io = Some t \<longrightarrow> rows_ok bs p t"
      using full_io bsn Cons.prems(7) rows_ok_take [of B p _ bs] by (auto simp: min_def)
    have c: "rows_ok bs p (take bs tr)"
      using full_tr(2) bsn Cons.prems(7) rows_ok_take [of B p tr bs] by (simp add: min_def)
    show ?thesis
      using that [of state' "\<lparr> mem_io = map_option (take bs) io,
                             mem_trace = map_option (take bs) trace \<rparr>" "take bs tr"]
        True t a \<open>pairs_per_example state' = p\<close> truncate_context [OF t] b c full_tr(1)
      by simp
  next
    case False
    have "bs = n"
    proof (cases "last_bs = 0")
      case True
      with Cons.prems(11) show ?thesis by simp
    next
      case nz: False
      with Cons.prems(8) have "last_bs = n" by simp
      with False bsn show ?thesis by simp
    qed
    with that [of state memory tm] False Cons.prems show ?thesis by simp
  qed
  from step_succeeds [where n = bs and s = state1 and xs = ?slice and mem = memory1
      and tm = tm1 and d = d and M = M] ok1 p1 p c1 io1 tr1 d len
  obtain state2 lg where st: "compute_next_token_logits d M state1 memory1
        (map (replicate p) ?slice) = Inr (state2, lg)"
    and c2: "st_context state2 \<noteq> None"
    by auto
  have ok2: "state_ok bs state2" and p2: "pairs_per_example state2 = p"
    using step_preserves [of d M state1 memory1 ?slice state2 lg bs] st p1 ok1 len by simp_all
  have srt: "sorted_wrt (\<ge>) rest" and le: "\<forall>b \<in> set rest. b \<le> bs"
    using Cons.prems(9) by simp_all
  have hd: "bs = 0 \<longrightarrow> rest = [] \<or> hd rest = bs"
    using le by (cases rest) auto
  have off: "offset + bs + sum_list rest \<le> length data" using Cons.prems(12) by simp
  have nB: "bs \<le> B" using bsn Cons.prems(7) by simp
  from Cons.IH [where last_bs = bs, OF ok2 p2 c2 io1 tr1 nB _ srt le hd off]
  obtain ls where "forward_loop d M p io trace data rest (offset + bs) bs state2 memory1 = Inr ls"
    by auto
  with pre st show ?case by (simp add: Let_def)
qed

lemma index_rows_valid:
  assumes "\<forall>i \<in> set idx. 0 \<le> i \<and> i < int n" and "length idx = m"
    and "\<forall>t. ot = Some t \<longrightarrow> rows_ok n p t"
  shows "\<exists>r. index_rows ot idx = Inr r \<and> (r = None) = (ot = None)
             \<and> (\<forall>t. r = Some t \<longrightarrow> rows_ok m p t)"
proof (cases ot)
  case None
  then show ?thesis by (simp add: index_rows_def)
next
  case (Some t)
  with assms(3) have t: "length t = n" "\<forall>r \<in> set t. length r = p"
    by (simp_all add: rows_ok_def)
  have "\<forall>i \<in> set idx. py_index t i = Inr (t ! nat i)"
    using assms(1) t(1) by (auto simp: py_index_def)
  from traverse_map [OF this] Some
  have r: "index_rows ot idx = Inr (Some (map (\<lambda>i. t ! nat i) idx))"
    by (simp add: index_rows_def)
  have "rows_ok m p (map (\<lambda>i. t ! nat i) idx)"
    using assms(1,2) t by (auto simp: rows_ok_def)
  with r Some show ?thesis by simp
qed

lemma unflatten_rows_ok:
  assumes "length xs = n * p"
  shows "rows_ok n p (unflatten (replicate n p) xs)"
proof -
  have "length xs = sum_list (replicate n p)" using assms by (simp add: sum_list_replicate)
  from map_length_unflatten [OF this]
  have e: "map length (unflatten (replicate n p) xs) = replicate n p" .
  have "length r = p" if "r \<in> set (unflatten (replicate n p) xs)" for r
  proof -
    from that have "length r \<in> set (map length (unflatten (replicate n p) xs))" by simp
    with e show ?thesis by simp
  qed
  then show ?thesis by (simp add: rows_ok_def length_unflatten)
qed

text \<open>
  With trace memory in use the teacher-forced pass returns: for a packed batch whose
  batch sizes start at the batch size and never increase, the logits have one row per
  packed position, timestep by timestep, and the labels are the packed targets.
\<close>

lemma forward_returns_with_trace_memory:
  assumes d: "use_trace_memory d" and p: "0 < p"
    and tm: "length tm = B * p"
    and io: "\<forall>t. io_embed = Some t \<longrightarrow> rows_ok B p t"
    and ord: "length (orig_to_sort input_code) = B"
      "\<forall>i \<in> set (orig_to_sort input_code). 0 \<le> i \<and> i < int B"
    and bss: "ps_batch_sizes input_code \<noteq> []" "hd (ps_batch_sizes input_code) = B"
      "sorted_wrt (\<ge>) (ps_batch_sizes input_code)"
    and data: "sum_list (ps_batch_sizes input_code) = length (ps_data input_code)"
  shows "\<exists>logits ls. forward d M B p io_embed (Some tm) input_code output_code
                      = Inr (logits, ps_data output_code)
           \<and> length logits = sum_list (ps_batch_sizes input_code)
           \<and> logits = concat ls \<and> map length ls = ps_batch_sizes input_code"
proof -
  let ?tr0 = "unflatten (replicate B p) tm"
  have pm: "prepare_memory d B p io_embed (Some tm)
            = Inr \<lparr> mem_io = io_embed, mem_trace = Some ?tr0 \<rparr>"
    using d tm by (simp add: prepare_memory_def)
  have tr0: "rows_ok B p ?tr0" using tm by (rule unflatten_rows_ok)
  from index_rows_valid [OF ord(2) ord(1) io]
  obtain io' where i1: "index_rows io_embed (orig_to_sort input_code) = Inr io'"
    and io': "\<forall>t. io' = Some t \<longrightarrow> rows_ok B p t" by blast
  from index_rows_valid [OF ord(2) ord(1), of "Some ?tr0" p] tr0
  obtain tr where i2: "index_rows (Some ?tr0) (orig_to_sort input_code) = Inr (Some tr)"
    and tr: "rows_ok B p tr" by auto
  let ?st = "init_state d B p :: 'b list list State"
  have ok: "state_ok B ?st" "pairs_per_example ?st = p" by (simp_all add: init_state_ok)
  have cx: "st_context ?st \<noteq> None" using d by (simp add: init_state_def)
  have le: "\<forall>bs \<in> set (ps_batch_sizes input_code). bs \<le> B"
    using bss by (cases "ps_batch_sizes input_code") auto
  let ?data = "map (code_embed M) (ps_data input_code)"
  have dl: "0 + sum_list (ps_batch_sizes input_code) \<le> length ?data" using data by simp
  from forward_loop_succeeds [OF d p io' refl tr ok cx, where memory = "\<lparr> mem_io = io', mem_trace = Some tr \<rparr>"
      and tm = tr and last_bs = 0 and bss = "ps_batch_sizes input_code" and offset = 0
      and data = ?data and M = M]
    io' tr bss le dl
  obtain ls where fl: "forward_loop d M p io' (Some tr) ?data (ps_batch_sizes input_code) 0 0 ?st
                         \<lparr> mem_io = io', mem_trace = Some tr \<rparr> = Inr ls"
    by auto
  from forward_loop_rows [OF fl ok(2) dl] have m: "map length ls = ps_batch_sizes input_code" .
  with bss(1) have ne: "ls \<noteq> []" by auto
  have "forward d M B p io_embed (Some tm) input_code output_code
        = Inr (concat ls, ps_data output_code)"
    using pm i1 i2 fl ne by (simp add: forward_def Let_def)
  moreover have "length (concat ls) = sum_list (ps_batch_sizes input_code)"
    using m by (simp add: length_concat)
  ultimately show ?thesis using m by blast
qed

text \<open>
  Claim C5, at a batch of two sequences of lengths 2 and 1 (batch sizes 2, 1) decoded
  without trace memory: at the second timestep the batch shrinks, \<open>forward\<close> truncates
  the state, whose context is \<open>None\<close>, and raises TypeError; no logits are returned.
\<close>

theorem forward_without_trace_raises:
  "forward decoder_without_trace example_modules 2 1 None None
     \<lparr> ps_data = [10, 20, 11], ps_batch_sizes = [2, 1], orig_to_sort = [0, 1] \<rparr>
     \<lparr> ps_data = [11, 21, 12 :: int], ps_batch_sizes = [2, 1], orig_to_sort = [0, 1] \<rparr>
   = Inl TypeError"
  by (simp add: forward_def prepare_memory_def index_rows_def decoder_without_trace_def
      example_modules_def init_state_def lstm_init_def numeral_2_eq_2 State_truncate_def
      compute_next_token_logits_def maybe_concat2_def lstm_forward_def attend_trace_def
      pool_pairs_def emb_for_logits_def view_groups_def Let_def)

text \<open>
  The same kind of batch (two sequences of lengths 3 and 2, batch sizes 2, 2, 1) decoded
  with trace memory: five rows of logits, the labels are the packed targets.
\<close>

lemma forward_with_trace_scenario:
  "\<exists>logits. forward decoder_with_trace example_modules 2 1 None (Some [[7], [8]])
     \<lparr> ps_data = [10, 20, 11, 21, 12], ps_batch_sizes = [2, 2, 1], orig_to_sort = [0, 1] \<rparr>
     \<lparr> ps_data = [11, 21, 12, 1, 1 :: int], ps_batch_sizes = [2, 2, 1], orig_to_sort = [0, 1] \<rparr>
   = Inr (logits, [11, 21, 12, 1, 1]) \<and> length logits = 5"
  by (simp add: forward_def prepare_memory_def index_rows_def decoder_with_trace_def
      example_modules_def init_state_def lstm_init_def numeral_2_eq_2 State_truncate_def
      compute_next_token_logits_def maybe_concat2_def lstm_forward_def attend_trace_def
      pool_pairs_def emb_for_logits_def view_groups_def Let_def cat_dim2_def py_index_def)

section \<open>Truncation of the decoder state\<close>

lemma State_truncate_Some:
  "st_context s = Some ctx \<Longrightarrow>
   State_truncate k s =
     Inr \<lparr> pairs_per_example = pairs_per_example s, st_context = Some (take k ctx),
           st_h = map (take k) (st_h s), st_c = map (take k) (st_c s) \<rparr>"
  by (simp add: State_truncate_def)

lemma State_truncate_rows:
  assumes "State_truncate k s = Inr s'"
    and "\<forall>l \<in> set (st_h s). length l = n" and "\<forall>l \<in> set (st_c s). length l = n"
    and "\<forall>ctx. st_context s = Some ctx \<longrightarrow> length ctx = n"
    and "k \<le> n"
  shows "(\<exists>ctx. st_context s' = Some ctx \<and> length ctx = k)
         \<and> (\<forall>l \<in> set (st_h s'). length l = k) \<and> (\<forall>l \<in> set (st_c s'). length l = k)
         \<and> pairs_per_example s' = pairs_per_example s"
  using assms by (auto simp: State_truncate_def split: option.splits)

text \<open>
  Claim C2, at the state that \<open>init_state\<close> builds when trace memory is disabled:
  \<open>truncate\<close> does not return the truncated state, it raises TypeError on the
  \<open>None\<close> context.
\<close>

theorem truncate_without_context_raises:
  "State_truncate 1
     (init_state \<lparr> use_trace_memory = False, use_trace_state = False, use_io_embed = True,
                   decoder_input_size = 768, out_in_features = 256 \<rparr> 2 1
        :: int vec list State)
   = Inl TypeError"
  by (simp add: State_truncate_def init_state_def)

section \<open>Configuration errors at construction time\<close>

lemma split_on_state: "split_on CHR '','' ''state'' = [''state'']"
  by simp

lemma split_on_memory: "split_on CHR '','' ''memory'' = [''memory'']"
  by simp

lemma split_on_none: "split_on CHR '','' ''none'' = [''none'']"
  by simp

lemma set_pop_flag: "fst (set_pop s v) = (v \<in> set s)"
  by (simp add: set_pop_def)

lemma set_pop_rest: "set (snd (set_pop s v)) \<subseteq> set s"
  by (auto simp: set_pop_def dest: set_remove1_subset [THEN subsetD])

lemma set_pop_keeps: "w \<in> set s \<Longrightarrow> w \<noteq> v \<Longrightarrow> w \<in> set (snd (set_pop s v))"
  by (simp add: set_pop_def)

lemma parse_trace_usage_state:
  assumes "''state'' \<in> set (split_on CHR '','' usage)"
    and "''none'' \<notin> set (split_on CHR '','' usage)"
  shows "fst (snd (parse_trace_usage usage))"
proof -
  let ?u = "split_on CHR '','' usage"
  obtain mem u1 where p1: "set_pop ?u ''memory'' = (mem, u1)" by (cases "set_pop ?u ''memory''")
  obtain st u2 where p2: "set_pop u1 ''state'' = (st, u2)" by (cases "set_pop u1 ''state''")
  obtain nn u3 where p3: "set_pop u2 ''none'' = (nn, u3)" by (cases "set_pop u2 ''none''")
  have "''state'' \<in> set u1"
    using set_pop_keeps [OF assms(1), of "''memory''"] p1 by simp
  then have st: "st" using set_pop_flag [of u1 "''state''"] p2 by simp
  have "set u2 \<subseteq> set ?u"
    using set_pop_rest [of ?u "''memory''"] set_pop_rest [of u1 "''state''"] p1 p2 by auto
  then have "''none'' \<notin> set u2" using assms(2) by blast
  then have "\<not> nn" using set_pop_flag [of u2 "''none''"] p3 by simp
  with st p1 p2 p3 show ?thesis by (simp add: parse_trace_usage_def)
qed

lemma parse_trace_usage_none_listed:
  assumes "''none'' \<in> set (split_on CHR '','' usage)"
  shows "\<not> fst (parse_trace_usage usage) \<and> \<not> fst (snd (parse_trace_usage usage))"
proof -
  let ?u = "split_on CHR '','' usage"
  obtain mem u1 where p1: "set_pop ?u ''memory'' = (mem, u1)" by (cases "set_pop ?u ''memory''")
  obtain st u2 where p2: "set_pop u1 ''state'' = (st, u2)" by (cases "set_pop u1 ''state''")
  obtain nn u3 where p3: "set_pop u2 ''none'' = (nn, u3)" by (cases "set_pop u2 ''none''")
  have "''none'' \<in> set u1"
    using set_pop_keeps [OF assms, of "''memory''"] p1 by simp
  then have "''none'' \<in> set u2"
    using set_pop_keeps [of "''none''" u1 "''state''"] p2 by simp
  then have "nn" using set_pop_flag [of u2 "''none''"] p3 by simp
  with p1 p2 p3 show ?thesis by (simp add: parse_trace_usage_def)
qed

lemma parse_trace_usage_state_none: "parse_trace_usage ''state,none'' = (False, False, [])"
  by (simp add: parse_trace_usage_def set_pop_def)

lemma parse_trace_usage_memory: "parse_trace_usage ''memory'' = (True, False, [])"
  by (simp add: parse_trace_usage_def set_pop_def)

lemma parse_trace_usage_none: "parse_trace_usage ''none'' = (False, False, [])"
  by (simp add: parse_trace_usage_def set_pop_def)

text \<open>
  Claim C9, as the code has it. A \<open>karel_trace_usage\<close> that lists \<open>state\<close> and
  does not list \<open>none\<close> makes the constructor of \<open>LatePoolingCodeDecoder\<close> fail
  with an assertion error, and no decoder is ever built with \<open>use_trace_state\<close> set.
  When \<open>none\<close> is listed it overrides the other entries: a decoder that is built
  then has neither flag, so \<open>state,none\<close> is accepted with the \<open>state\<close> entry
  dropped. The configurations \<open>memory\<close> and \<open>none\<close> are accepted (with no
  placeholders, which the constructor asserts first).
\<close>

theorem trace_state_mode_rejected:
  "(''state'' \<in> set (split_on CHR '','' (karel_trace_usage args))
      \<and> ''none'' \<notin> set (split_on CHR '','' (karel_trace_usage args))
      \<longrightarrow> LatePoolingCodeDecoder_init args = Inl AssertionError)
   \<and> (karel_trace_usage args = ''state''
      \<longrightarrow> LatePoolingCodeDecoder_init args = Inl AssertionError)
   \<and> (LatePoolingCodeDecoder_init args = Inr d \<longrightarrow> \<not> use_trace_state d)
   \<and> (''none'' \<in> set (split_on CHR '','' (karel_trace_usage args))
        \<and> LatePoolingCodeDecoder_init args = Inr d
      \<longrightarrow> \<not> use_trace_memory d \<and> \<not> use_trace_state d)
   \<and> (num_placeholders args = 0 \<and> karel_trace_usage args = ''state,none''
      \<longrightarrow> (\<exists>d. LatePoolingCodeDecoder_init args = Inr d
               \<and> \<not> use_trace_memory d \<and> \<not> use_trace_state d))
   \<and> (num_placeholders args = 0 \<and> karel_trace_usage args = ''memory''
      \<longrightarrow> (\<exists>d. LatePoolingCodeDecoder_init args = Inr d
               \<and> use_trace_memory d \<and> \<not> use_trace_state d))
   \<and> (num_placeholders args = 0 \<and> karel_trace_usage args = ''none''
      \<longrightarrow> (\<exists>d. LatePoolingCodeDecoder_init args = Inr d
               \<and> \<not> use_trace_memory d \<and> \<not> use_trace_state d))"
proof -
  have general: "LatePoolingCodeDecoder_init args = Inl AssertionError"
    if "''state'' \<in> set (split_on CHR '','' (karel_trace_usage args))"
      and "''none'' \<notin> set (split_on CHR '','' (karel_trace_usage args))"
  proof -
    obtain mem st rest where p: "parse_trace_usage (karel_trace_usage args) = (mem, st, rest)"
      by (cases "parse_trace_usage (karel_trace_usage args)")
    from parse_trace_usage_state [OF that] p have "st" by simp
    with p show ?thesis by (simp add: LatePoolingCodeDecoder_init_def)
  qed
  have single: "LatePoolingCodeDecoder_init args = Inl AssertionError"
    if "karel_trace_usage args = ''state''"
    using general that by (simp only: split_on_state) simp
  have never: "\<not> use_trace_state d" if "LatePoolingCodeDecoder_init args = Inr d"
    using that
    by (auto simp: LatePoolingCodeDecoder_init_def Let_def split: if_splits prod.splits)
  have mem: "\<exists>d. LatePoolingCodeDecoder_init args = Inr d
               \<and> use_trace_memory d \<and> \<not> use_trace_state d"
    if "num_placeholders args = 0" "karel_trace_usage args = ''memory''"
    using that by (simp add: LatePoolingCodeDecoder_init_def parse_trace_usage_memory Let_def)
  have none: "\<exists>d. LatePoolingCodeDecoder_init args = Inr d
               \<and> \<not> use_trace_memory d \<and> \<not> use_trace_state d"
    if "num_placeholders args = 0" "karel_trace_usage args = ''none''"
    using that by (simp add: LatePoolingCodeDecoder_init_def parse_trace_usage_none Let_def)
  have override: "\<not> use_trace_memory d \<and> \<not> use_trace_state d"
    if "''none'' \<in> set (split_on CHR '','' (karel_trace_usage args))"
      and "LatePoolingCodeDecoder_init args = Inr d"
  proof -
    obtain mem st rest where q: "parse_trace_usage (karel_trace_usage args) = (mem, st, rest)"
      by (cases "parse_trace_usage (karel_trace_usage args)")
    from parse_trace_usage_none_listed [OF that(1)] q have "\<not> mem" "\<not> st" by simp_all
    with that(2) q show ?thesis
      by (auto simp: LatePoolingCodeDecoder_init_def Let_def split: if_splits)
  qed
  have dropped: "\<exists>d. LatePoolingCodeDecoder_init args = Inr d
               \<and> \<not> use_trace_memory d \<and> \<not> use_trace_state d"
    if "num_placeholders args = 0" "karel_trace_usage args = ''state,none''"
    using that
    by (simp add: LatePoolingCodeDecoder_init_def parse_trace_usage_state_none Let_def)
  from general single never override dropped mem none show ?thesis by blast
qed

theorem trace_state_mode_rejected_witness:
  "LatePoolingCodeDecoder_init
     \<lparr> num_placeholders = 0, karel_trace_usage = ''memory,state'', karel_io_enc = ''lgrl'' \<rparr>
     = Inl AssertionError
   \<and> LatePoolingCodeDecoder_init
     \<lparr> num_placeholders = 0, karel_trace_usage = ''state'', karel_io_enc = ''lgrl'' \<rparr>
     = Inl AssertionError
   \<and> (\<exists>d. LatePoolingCodeDecoder_init
     \<lparr> num_placeholders = 0, karel_trace_usage = ''memory'', karel_io_enc = ''lgrl'' \<rparr>
     = Inr d \<and> use_trace_memory d \<and> \<not> use_trace_state d)
   \<and> (\<exists>d. LatePoolingCodeDecoder_init
     \<lparr> num_placeholders = 0, karel_trace_usage = ''none'', karel_io_enc = ''lgrl'' \<rparr>
     = Inr d \<and> \<not> use_trace_memory d \<and> \<not> use_trace_state d)
   \<and> (\<exists>d. LatePoolingCodeDecoder_init
     \<lparr> num_placeholders = 0, karel_trace_usage = ''state,none'', karel_io_enc = ''lgrl'' \<rparr>
     = Inr d \<and> \<not> use_trace_memory d \<and> \<not> use_trace_state d)"
  using trace_state_mode_rejected
    [of "\<lparr> num_placeholders = 0, karel_trace_usage = ''state,none'', karel_io_enc = ''lgrl'' \<rparr>"]
    trace_state_mode_rejected
    [of "\<lparr> num_placeholders = 0, karel_trace_usage = ''memory,state'', karel_io_enc = ''lgrl'' \<rparr>"]
    trace_state_mode_rejected
    [of "\<lparr> num_placeholders = 0, karel_trace_usage = ''state'', karel_io_enc = ''lgrl'' \<rparr>"]
    trace_state_mode_rejected
    [of "\<lparr> num_placeholders = 0, karel_trace_usage = ''memory'', karel_io_enc = ''lgrl'' \<rparr>"]
    trace_state_mode_rejected
    [of "\<lparr> num_placeholders = 0, karel_trace_usage = ''none'', karel_io_enc = ''lgrl'' \<rparr>"]
  by simp

text \<open>
  The configuration \<open>state,none\<close> lists the \<open>state\<close> mode and is accepted: the
  decoder is built, with \<open>use_trace_state\<close> cleared by the \<open>none\<close> entry.
\<close>

theorem state_overridden_by_none_counterexample:
  "''state'' \<in> set (split_on CHR '','' ''state,none'')
   \<and> LatePoolingCodeDecoder_init
       \<lparr> num_placeholders = 0, karel_trace_usage = ''state,none'', karel_io_enc = ''lgrl'' \<rparr>
     = Inr \<lparr> use_trace_memory = False, use_trace_state = False, use_io_embed = True,
             decoder_input_size = 768, out_in_features = 256 \<rparr>"
  by (simp add: LatePoolingCodeDecoder_init_def parse_trace_usage_state_none Let_def)

text \<open>
  Claim C8. With grid encoding, conditional embedding and action embedding all
  \<open>none\<close> the constructor of \<open>IndividualTraceEncoder\<close> fails with an assertion
  error (whatever \<open>karel_trace_enc\<close> says, so in the non-interleaved mode in
  particular, where the input width would be 0); every configuration it accepts has at
  least one input source and a positive input width.
\<close>

theorem encoder_needs_input_source:
  "(karel_trace_grid_enc args = ''none'' \<and> karel_trace_cond_enc args = ''none''
      \<and> karel_trace_action_enc args = ''none''
      \<longrightarrow> IndividualTraceEncoder_init args = Inl AssertionError)
   \<and> (IndividualTraceEncoder_init args = Inr e
      \<longrightarrow> (has_grid_encoder e \<or> has_cond_embed e \<or> has_action_embed e)
          \<and> 0 < enc_input_size e)"
proof -
  have a: "IndividualTraceEncoder_init args = Inl AssertionError"
    if "karel_trace_grid_enc args = ''none''" "karel_trace_cond_enc args = ''none''"
       "karel_trace_action_enc args = ''none''"
    using that
    by (simp add: IndividualTraceEncoder_init_def grid_enc_choice_def cond_enc_choice_def
        action_enc_choice_def Let_def split: prod.splits)
  have b: "(has_grid_encoder e \<or> has_cond_embed e \<or> has_action_embed e)
          \<and> 0 < enc_input_size e"
    if "IndividualTraceEncoder_init args = Inr e"
    using that
    by (auto simp: IndividualTraceEncoder_init_def Let_def
        split: sum.splits prod.splits option.splits if_splits)
  from a b show ?thesis by blast
qed

theorem encoder_needs_input_source_witness:
  "IndividualTraceEncoder_init
     \<lparr> karel_trace_grid_enc = ''none'', karel_trace_cond_enc = ''none'',
       karel_trace_enc = ''indiv:concat'', karel_trace_action_enc = ''none'' \<rparr>
     = Inl AssertionError
   \<and> (\<exists>e. IndividualTraceEncoder_init
     \<lparr> karel_trace_grid_enc = ''lgrl'', karel_trace_cond_enc = ''none'',
       karel_trace_enc = ''indiv:concat'', karel_trace_action_enc = ''emb'' \<rparr>
     = Inr e \<and> has_grid_encoder e \<and> enc_input_size e = 768)"
proof -
  have ok: "IndividualTraceEncoder_init
     \<lparr> karel_trace_grid_enc = ''lgrl'', karel_trace_cond_enc = ''none'',
       karel_trace_enc = ''indiv:concat'', karel_trace_action_enc = ''emb'' \<rparr>
     = Inr \<lparr> has_grid_encoder = True, has_cond_embed = False, has_action_embed = True,
             interleave = False, enc_input_size = 768 \<rparr>"
    by (simp add: IndividualTraceEncoder_init_def grid_enc_choice_def cond_enc_choice_def
        action_enc_choice_def set_pop_def Let_def)
  show ?thesis
    using encoder_needs_input_source
      [of "\<lparr> karel_trace_grid_enc = ''none'', karel_trace_cond_enc = ''none'',
       karel_trace_enc = ''indiv:concat'', karel_trace_action_enc = ''none'' \<rparr>"]
      encoder_needs_input_source
      [of "\<lparr> karel_trace_grid_enc = ''lgrl'', karel_trace_cond_enc = ''none'',
       karel_trace_enc = ''indiv:concat'', karel_trace_action_enc = ''emb'' \<rparr>"
          "\<lparr> has_grid_encoder = True, has_cond_embed = False, has_action_embed = True,
             interleave = False, enc_input_size = 768 \<rparr>"]
      ok
    by simp
qed

section \<open>Properties of the action vocabulary\<close>

lemma action_to_id_cases:
  "action_to_id a = Some i \<Longrightarrow>
     (a, i) \<in> {(''<s>'', 0), (''</s>'', 1), (''move'', 2), (''turnLeft'', 3),
      (''turnRight'', 4), (''putMarker'', 5), (''pickMarker'', 6)}"
  unfolding action_to_id_def action_to_id_items_def
  by (auto split: if_splits)

lemma id_to_action_cases:
  "id_to_action i = Some a \<Longrightarrow>
     (i, a) \<in> {(0, ''<s>''), (1, ''</s>''), (2, ''move''), (3, ''turnLeft''),
      (4, ''turnRight''), (5, ''putMarker''), (6, ''pickMarker'')}"
  unfolding id_to_action_def id_to_action_items_def
  by (auto split: if_splits)

lemma id_to_action_table:
  "id_to_action 0 = Some ''<s>''" "id_to_action 1 = Some ''</s>''"
  "id_to_action 2 = Some ''move''" "id_to_action 3 = Some ''turnLeft''"
  "id_to_action 4 = Some ''turnRight''" "id_to_action 5 = Some ''putMarker''"
  "id_to_action 6 = Some ''pickMarker''" "id_to_action (Suc 0) = Some ''</s>''"
  unfolding id_to_action_def id_to_action_items_def by simp_all

lemma action_to_id_table:
  "action_to_id ''<s>'' = Some 0" "action_to_id ''</s>'' = Some 1"
  "action_to_id ''move'' = Some 2" "action_to_id ''turnLeft'' = Some 3"
  "action_to_id ''turnRight'' = Some 4" "action_to_id ''putMarker'' = Some 5"
  "action_to_id ''pickMarker'' = Some 6"
  unfolding action_to_id_def action_to_id_items_def by simp_all

text \<open>
  Claim C10. The two dictionaries are mutually inverse bijections between the seven
  action tokens and the ids 0..6: an action maps to an id exactly when the id maps back
  to the action, the keys are exactly the seven tokens and exactly the ids 0..6, and the
  ids that \<open>decode_token\<close> skips (\<open>action_id < 2\<close>) are exactly the ids of
  \<open><s>\<close> and \<open></s>\<close>.
\<close>

theorem action_id_bijection:
  "(action_to_id a = Some i \<longleftrightarrow> id_to_action i = Some a)
   \<and> dom action_to_id = {''<s>'', ''</s>'', ''move'', ''turnLeft'', ''turnRight'',
        ''putMarker'', ''pickMarker''}
   \<and> dom id_to_action = {0, 1, 2, 3, 4, 5, 6}
   \<and> (is_marker_id (int i) \<longleftrightarrow>
        action_to_id ''<s>'' = Some i \<or> action_to_id ''</s>'' = Some i)"
proof -
  have fwd: "action_to_id a = Some i \<Longrightarrow> id_to_action i = Some a"
    by (drule action_to_id_cases) (auto simp: id_to_action_table)
  have bwd: "id_to_action i = Some a \<Longrightarrow> action_to_id a = Some i"
    by (drule id_to_action_cases) (auto simp: action_to_id_table)
  have d1: "dom action_to_id = {''<s>'', ''</s>'', ''move'', ''turnLeft'', ''turnRight'',
        ''putMarker'', ''pickMarker''}"
    unfolding action_to_id_def action_to_id_items_def by (auto simp: dom_map_of_conv_image_fst)
  have d2: "dom id_to_action = {0, 1, 2, 3, 4, 5, 6}"
    unfolding id_to_action_def id_to_action_items_def by (auto simp: dom_map_of_conv_image_fst)
  have m: "is_marker_id (int i) \<longleftrightarrow>
        action_to_id ''<s>'' = Some i \<or> action_to_id ''</s>'' = Some i"
    unfolding is_marker_id_def by (auto simp: action_to_id_table)
  from fwd bwd d1 d2 m show ?thesis by blast
qed


end
